theory Spec2Isabelle
  imports Main "HOL-Library.Sublist"
begin

section \<open>The project board orchestrator of \<^verbatim>\<open>src/project.ts\<close>\<close>

text \<open>
  The development embeds \<^verbatim>\<open>parseURL\<close> and the class \<^verbatim>\<open>Project\<close>
  (its constructor, \<^verbatim>\<open>init\<close>, \<^verbatim>\<open>initFields\<close>, \<^verbatim>\<open>getStatusField\<close> and
  \<^verbatim>\<open>addToProject\<close>). Strings are \<^typ>\<open>string\<close>, a character outside ASCII
  being its UTF-8 bytes; a thrown \<^verbatim>\<open>Error\<close> is a value of the type \<open>error\<close>; the object \<^verbatim>\<open>this\<close> is a record that is passed in
  and returned; the remote end (the GraphQL client and the three helpers of
  \<^verbatim>\<open>./helpers\<close>) is a record of functions over a world state \<open>'w\<close>, and the
  runtime's \<^verbatim>\<open>String.prototype.toLowerCase\<close> is a parameter as well. The calls
  of \<^verbatim>\<open>core.debug\<close>, \<^verbatim>\<open>core.info\<close> and \<^verbatim>\<open>core.error\<close> only write
  to the log and are left out.
\<close>

subsection \<open>Data\<close>

record ProjectDesc =
  owner :: string
  projectNumber :: nat
  isOrg :: bool

record DefaultStatus =
  issues :: string
  prs :: string

text \<open>
  One element of \<^verbatim>\<open>ProjectFieldEntry.options\<close>: \<^verbatim>\<open>{ id: string; name: string }\<close>.
\<close>

record FieldOption =
  o_id :: string
  o_name :: string

text \<open>
  \<^verbatim>\<open>ProjectFieldEntry\<close> (declared in \<^verbatim>\<open>./gql-types\<close>), with the members that
  \<^verbatim>\<open>project.ts\<close> reads. The query selects \<^verbatim>\<open>id\<close>, \<^verbatim>\<open>name\<close> and
  \<^verbatim>\<open>options\<close> on single-select fields only, so a node of another kind arrives
  without an \<^verbatim>\<open>id\<close>: \<open>f_id = None\<close> is \<^verbatim>\<open>entry.id === undefined\<close>.
\<close>

record ProjectFieldEntry =
  f_id :: "string option"
  f_name :: string
  f_options :: "FieldOption list"

text \<open>
  The value thrown by a remote call is kept as a string. Every \<^verbatim>\<open>throw\<close> of
  \<^verbatim>\<open>project.ts\<close> has a constructor, named after the error kind of the
  specification; \<open>MissingToken\<close> is the exception of the library call in the
  constructor; the last three are the exceptions of the remote calls that the
  source lets through unchanged, tagged with the call they come from.
\<close>

type_synonym rerr = string

datatype error =
    InvalidURL string \<comment> \<open>\<^verbatim>\<open>Invalid project URL: ${url}\<close>\<close>
  | BoardNotFound bool \<comment> \<open>\<^verbatim>\<open>Expected organization result, found none!\<close> (True), \<^verbatim>\<open>Expected user result, found none!\<close> (False)\<close>
  | MissingToken \<comment> \<open>\<^verbatim>\<open>Parameter token or opts.auth is required\<close>, thrown by \<^verbatim>\<open>github.getOctokit\<close>\<close>
  | NotInitialized \<comment> \<open>\<^verbatim>\<open>Expected Project ID to be populated!\<close>\<close>
  | AddFailed \<comment> \<open>\<^verbatim>\<open>Unable to add item to project\<close>\<close>
  | AddReturnedNoID \<comment> \<open>\<^verbatim>\<open>Undefined project item id returned when adding\<close>\<close>
  | MembershipNotFoundAfterAdd \<comment> \<open>\<^verbatim>\<open>Unexpected undefined project item after adding\<close>\<close>
  | MembershipIDMismatch string string \<comment> \<open>\<^verbatim>\<open>Project Item ID mismatch! Expected ${item.prjItemID} got ${prjItemID}\<close>\<close>
  | MissingStatusField \<comment> \<open>\<^verbatim>\<open>Unexpected undefined 'Status' field\<close>\<close>
  | StatusValueNotFound string \<comment> \<open>\<^verbatim>\<open>Unable to find status value for '${wantedStatus}'\<close>\<close>
  | FetchFailed rerr \<comment> \<open>thrown by \<^verbatim>\<open>octokit.graphql\<close> in \<^verbatim>\<open>init\<close>\<close>
  | LookupFailed rerr \<comment> \<open>thrown by \<^verbatim>\<open>getProjectItem\<close>\<close>
  | StatusUpdateFailed rerr \<comment> \<open>thrown by \<^verbatim>\<open>updateIssueStatus\<close>\<close>

subsection \<open>\<^verbatim>\<open>parseURL\<close>\<close>

text \<open>
  The regular expression is
  \<^verbatim>\<open>/\/(?<type>orgs|users)\/(?<owner>[^/]+)\/projects\/(?<prjNumber>\d+)/\<close>.
  \<open>match_here\<close> runs it at the start of a string, piece by piece. No piece needs
  backtracking: \<^verbatim>\<open>orgs\<close> and \<^verbatim>\<open>users\<close> start with different characters;
  \<^verbatim>\<open>[^/]+\<close> is greedy and is followed by a \<^verbatim>\<open>/\<close>, which a shorter run of
  characters other than \<^verbatim>\<open>/\<close> is never followed by; \<^verbatim>\<open>\d+\<close> is greedy and last.
  \<open>regex_match\<close> is \<^verbatim>\<open>url.match(regex)\<close> for a regular expression without the
  \<^verbatim>\<open>g\<close> flag: the match at the leftmost position that has one.
\<close>

definition isDigit :: "char \<Rightarrow> bool" where
  "isDigit c \<longleftrightarrow> c \<in> set ''0123456789''"

definition literal :: "string \<Rightarrow> string \<Rightarrow> string option" where
  "literal lit s = (if prefix lit s then Some (drop (length lit) s) else None)"

definition alternative :: "string \<Rightarrow> (string \<times> string) option" where
  "alternative s =
     (case literal ''orgs'' s of
        Some r \<Rightarrow> Some (''orgs'', r)
      | None \<Rightarrow>
          (case literal ''users'' s of
             Some r \<Rightarrow> Some (''users'', r)
           | None \<Rightarrow> None))"

definition match_here :: "string \<Rightarrow> (string \<times> string \<times> string) option" where
  "match_here s =
     (case literal ''/'' s of
        None \<Rightarrow> None
      | Some s1 \<Rightarrow>
     (case alternative s1 of
        None \<Rightarrow> None
      | Some (ty, s2) \<Rightarrow>
     (case literal ''/'' s2 of
        None \<Rightarrow> None
      | Some s3 \<Rightarrow>
          let ow = takeWhile (\<lambda>c. c \<noteq> CHR ''/'') s3 in
          if ow = [] then None
          else
     (case literal ''/projects/'' (dropWhile (\<lambda>c. c \<noteq> CHR ''/'') s3) of
        None \<Rightarrow> None
      | Some s4 \<Rightarrow>
          let ds = takeWhile isDigit s4 in
          if ds = [] then None else Some (ty, ow, ds)))))"

fun regex_match :: "string \<Rightarrow> (string \<times> string \<times> string) option" where
  "regex_match [] = match_here []"
| "regex_match (c # cs) =
     (case match_here (c # cs) of
        Some g \<Rightarrow> Some g
      | None \<Rightarrow> regex_match cs)"

text \<open>
  \<^verbatim>\<open>parseInt\<close> on a non-empty string of decimal digits. The value is a natural
  number here; the source holds it in a double, which is the same number below
  \<open>2 ^ 53\<close>.
\<close>

definition digitVal :: "char \<Rightarrow> nat" where
  "digitVal c = of_char c - 48"

definition parseInt :: "string \<Rightarrow> nat" where
  "parseInt ds = foldl (\<lambda>n c. 10 * n + digitVal c) 0 ds"

definition parseURL :: "string \<Rightarrow> error + ProjectDesc" where
  "parseURL url =
     (case regex_match url of
        None \<Rightarrow> Inl (InvalidURL url)
      | Some (ty, ow, ds) \<Rightarrow>
          Inr \<lparr>owner = ow, projectNumber = parseInt ds, isOrg = (ty = ''orgs'')\<rparr>)"

text \<open>
  The pattern as the specification writes it,
  \<^verbatim>\<open>/(orgs|users)/<owner>/projects/<number>\<close> at the start of \<open>s\<close>, with the three
  groups: the language of the regular expression, independent of how a matcher
  runs.
\<close>

definition pattern_at :: "string \<Rightarrow> string \<Rightarrow> string \<Rightarrow> string \<Rightarrow> bool" where
  "pattern_at s ty ow ds \<longleftrightarrow>
     (\<exists>rest. s = ''/'' @ ty @ ''/'' @ ow @ ''/projects/'' @ ds @ rest)
     \<and> (ty = ''orgs'' \<or> ty = ''users'')
     \<and> ow \<noteq> [] \<and> CHR ''/'' \<notin> set ow
     \<and> ds \<noteq> [] \<and> list_all isDigit ds"

subsection \<open>The class \<^verbatim>\<open>Project\<close>\<close>

text \<open>
  \<^verbatim>\<open>fields: { [id: string]: ProjectFieldEntry }\<close> starts as the object literal
  \<^verbatim>\<open>{}\<close>. The map holds its own properties, which is what
  \<^verbatim>\<open>Object.keys(this.fields)\<close> lists and, for the key \<^verbatim>\<open>Status\<close>, what
  \<^verbatim>\<open>this.fields["Status"]\<close> reads (neither \<^verbatim>\<open>Object.prototype\<close> nor a field
  entry has a property of that name).
\<close>

type_synonym Fields = "string \<rightharpoonup> ProjectFieldEntry"

text \<open>
  The members of the class; \<open>token\<close> stands for \<^verbatim>\<open>octokit\<close>, which is made from it,
  and \<open>fieldsMap\<close> is \<^verbatim>\<open>fields\<close>.
\<close>

record Project =
  token :: string
  desc :: ProjectDesc
  projectID :: "string option"
  fieldsMap :: Fields
  defaultStatus :: DefaultStatus

text \<open>
  The assignment \<^verbatim>\<open>this.fields[k] = v\<close>. On an object created by \<^verbatim>\<open>{}\<close> the
  key \<^verbatim>\<open>__proto__\<close> is the accessor inherited from \<^verbatim>\<open>Object.prototype\<close>:
  assigning an object to it replaces the prototype of \<^verbatim>\<open>this.fields\<close> and creates
  no own property. Every other key creates or overwrites an own property.
\<close>

definition setField :: "Fields \<Rightarrow> string \<Rightarrow> ProjectFieldEntry \<Rightarrow> Fields" where
  "setField fs k v = (if k = ''__proto__'' then fs else fs(k \<mapsto> v))"

text \<open>The loop of \<^verbatim>\<open>initFields\<close> over \<^verbatim>\<open>this.fields\<close>.\<close>

fun initFields :: "Fields \<Rightarrow> ProjectFieldEntry list \<Rightarrow> Fields" where
  "initFields fs [] = fs"
| "initFields fs (entry # rest) =
     (if f_id entry = None then initFields fs rest
      else initFields (setField fs (f_name entry) entry) rest)"

text \<open>
  \<^verbatim>\<open>String.prototype.toLowerCase\<close> belongs to the runtime and folds the case of
  every Unicode letter; its table is not among the sources, so the function is
  a parameter \<open>L\<close> of \<^verbatim>\<open>getStatusField\<close> and of its callers. The type
  \<open>lowering\<close> holds the functions that agree with it where that is settled
  here: an ASCII string is folded letter by letter, \<^verbatim>\<open>A\<close> to \<^verbatim>\<open>Z\<close> becoming
  \<^verbatim>\<open>a\<close> to \<^verbatim>\<open>z\<close> and every other ASCII character staying (\<open>lowerChar\<close>),
  also around one of the two symbols of the specification's examples,
  \<^verbatim>\<open>U+2705\<close> and \<^verbatim>\<open>U+1F4CB\<close> in UTF-8, which have no case. What the function
  does to any other string is left open. \<open>asciiLowering\<close> is the member that
  folds nothing else.
\<close>

definition upperLetters :: string where
  "upperLetters = ''ABCDEFGHIJKLMNOPQRSTUVWXYZ''"

definition lowerLetters :: string where
  "lowerLetters = ''abcdefghijklmnopqrstuvwxyz''"

definition lowerChar :: "char \<Rightarrow> char" where
  "lowerChar c = (case map_of (zip upperLetters lowerLetters) c of Some l \<Rightarrow> l | None \<Rightarrow> c)"

definition isAscii :: "string \<Rightarrow> bool" where
  "isAscii s \<longleftrightarrow> list_all (\<lambda>c. (of_char c :: nat) < 128) s"

definition caselessSymbols :: "string list" where
  "caselessSymbols =
     [[CHR 0xE2, CHR 0x9C, CHR 0x85], [CHR 0xF0, CHR 0x9F, CHR 0x93, CHR 0x8B]]"

definition foldsCase :: "(string \<Rightarrow> string) \<Rightarrow> bool" where
  "foldsCase f \<longleftrightarrow>
     (\<forall>a u b. isAscii a \<and> isAscii b \<and> (u = [] \<or> u \<in> set caselessSymbols)
        \<longrightarrow> f (a @ u @ b) = map lowerChar a @ u @ map lowerChar b)"

typedef lowering = "{f :: string \<Rightarrow> string. foldsCase f}"
proof
  have "map lowerChar u = u" if "u = [] \<or> u \<in> set caselessSymbols" for u
    using that by (auto simp: caselessSymbols_def lowerChar_def upperLetters_def lowerLetters_def)
  then show "map lowerChar \<in> {f. foldsCase f}"
    by (simp add: foldsCase_def)
qed

definition toLowerCase :: "lowering \<Rightarrow> string \<Rightarrow> string" where
  "toLowerCase L s = Rep_lowering L s"

definition asciiLowering :: lowering where
  "asciiLowering = Abs_lowering (map lowerChar)"




text \<open>
  \<open>includes_str\<close> is \<^verbatim>\<open>String.prototype.includes\<close>: the argument occurs in the
  string as a contiguous run.
\<close>

fun includes_str :: "string \<Rightarrow> string \<Rightarrow> bool" where
  "includes_str [] t = (t = [])"
| "includes_str (c # cs) t = (prefix t (c # cs) \<or> includes_str cs t)"

text \<open>
  The result of \<^verbatim>\<open>getStatusField\<close>,
  \<^verbatim>\<open>{ fieldID: string; value: { id: string; value: string } }\<close>; \<open>value_id\<close> is
  \<^verbatim>\<open>value.id\<close> and \<open>value_name\<close> is \<^verbatim>\<open>value.value\<close>. \<open>fieldID\<close> is
  \<^verbatim>\<open>statusField.id\<close> as it is stored.
\<close>

record StatusRef =
  fieldID :: "string option"
  value_id :: string
  value_name :: string

definition getStatusField :: "lowering \<Rightarrow> Project \<Rightarrow> string \<Rightarrow> error + StatusRef option" where
  "getStatusField L this wanted =
     (case fieldsMap this ''Status'' of
        None \<Rightarrow> Inl MissingStatusField
      | Some statusField \<Rightarrow>
          (case find (\<lambda>entry. includes_str (toLowerCase L (o_name entry)) (toLowerCase L wanted))
                  (f_options statusField) of
             None \<Rightarrow> Inr None
           | Some fieldValue \<Rightarrow>
               Inr (Some \<lparr>fieldID = f_id statusField,
                          value_id = o_id fieldValue,
                          value_name = o_name fieldValue\<rparr>)))"

subsection \<open>The remote end\<close>

text \<open>
  \<^verbatim>\<open>ProjectQueryResponse\<close>: \<open>organization\<close> and \<open>user\<close> are
  \<^verbatim>\<open>projectRes.organization\<close> and \<^verbatim>\<open>projectRes.user\<close>, \<open>None\<close> when the member is
  \<^verbatim>\<open>undefined\<close>, and otherwise their \<^verbatim>\<open>projectV2\<close> with \<^verbatim>\<open>id\<close>, \<^verbatim>\<open>title\<close>
  and \<^verbatim>\<open>fields.nodes\<close>.
\<close>

record ProjectV2 =
  pv_id :: string
  pv_title :: string
  pv_nodes :: "ProjectFieldEntry list"

record ProjectQueryResponse =
  organization :: "ProjectV2 option"
  user :: "ProjectV2 option"

record ProjectItem =
  prjItemID :: string

text \<open>
  \<^verbatim>\<open>octokit.graphql\<close> with the query of \<^verbatim>\<open>init\<close>, and the helpers
  \<^verbatim>\<open>getProjectItem\<close>, \<^verbatim>\<open>addProjectItem\<close> and \<^verbatim>\<open>updateIssueStatus\<close> of
  \<^verbatim>\<open>./helpers\<close>, which is not among the sources: they are parameters. Each takes
  the arguments of the source after \<^verbatim>\<open>octokit\<close> and the state \<open>'w\<close> of the world,
  and returns the new state with either the value thrown (\<open>Inl\<close>) or the value
  returned; \<open>None\<close> is \<^verbatim>\<open>undefined\<close>.
\<close>

record 'w Remote =
  graphql :: "string \<Rightarrow> nat \<Rightarrow> bool \<Rightarrow> 'w \<Rightarrow> (rerr + ProjectQueryResponse) \<times> 'w"
  getProjectItem :: "string \<Rightarrow> string \<Rightarrow> 'w \<Rightarrow> (rerr + ProjectItem option) \<times> 'w"
  addProjectItem :: "string \<Rightarrow> string \<Rightarrow> 'w \<Rightarrow> (rerr + string option) \<times> 'w"
  updateIssueStatus ::
    "string \<Rightarrow> string \<Rightarrow> string option \<Rightarrow> string \<Rightarrow> 'w \<Rightarrow> (rerr + unit) \<times> 'w"

text \<open>The calls that \<^verbatim>\<open>addToProject\<close> issues, in the order it issues them.\<close>

datatype call =
    Lookup string string \<comment> \<open>\<^verbatim>\<open>getProjectItem(octokit, itemID, projectID)\<close>\<close>
  | Add string string \<comment> \<open>\<^verbatim>\<open>addProjectItem(octokit, itemID, projectID)\<close>\<close>
  | SetStatus string string "string option" string
      \<comment> \<open>\<^verbatim>\<open>updateIssueStatus(octokit, projectID, prjItemID, fieldID, optionID)\<close>\<close>

definition isMutation :: "call \<Rightarrow> bool" where
  "isMutation c = (case c of Lookup _ _ \<Rightarrow> False | Add _ _ \<Rightarrow> True | SetStatus _ _ _ _ \<Rightarrow> True)"

definition isAdd :: "call \<Rightarrow> bool" where
  "isAdd c = (case c of Add _ _ \<Rightarrow> True | _ \<Rightarrow> False)"

definition isSetStatus :: "call \<Rightarrow> bool" where
  "isSetStatus c = (case c of SetStatus _ _ _ _ \<Rightarrow> True | _ \<Rightarrow> False)"

subsection \<open>Constructor and \<^verbatim>\<open>init\<close>\<close>

text \<open>
  \<^verbatim>\<open>github.getOctokit(token)\<close> of the library \<^verbatim>\<open>@actions/github\<close>: without
  options it throws on an empty token (\<^verbatim>\<open>if (!token && !opts.auth)\<close>) and
  otherwise returns a client, which stands for its token here.
\<close>

definition getOctokit :: "string \<Rightarrow> error + string" where
  "getOctokit tok = (if tok = [] then Inl MissingToken else Inr tok)"

text \<open>
  \<^verbatim>\<open>new Project(token, url, defaultStatus)\<close>: the client is made first, then the
  URL is parsed. An exception of either leaves the constructor, and then there
  is no object.
\<close>

definition Project_new :: "string \<Rightarrow> string \<Rightarrow> DefaultStatus \<Rightarrow> error + Project" where
  "Project_new tok url ds =
     (case getOctokit tok of
        Inl e \<Rightarrow> Inl e
      | Inr octokit \<Rightarrow>
          (case parseURL url of
             Inl e \<Rightarrow> Inl e
           | Inr d \<Rightarrow>
               Inr \<lparr>token = octokit, desc = d, projectID = None, fieldsMap = Map.empty,
                    defaultStatus = ds\<rparr>))"

text \<open>
  \<^verbatim>\<open>init\<close> returns \<^verbatim>\<open>{ id, title }\<close> as a pair. The member that the
  non-null assertion of the source reads (\<^verbatim>\<open>projectRes.organization!\<close> or
  \<^verbatim>\<open>projectRes.user!\<close>) is the one that the two tests before it have found
  defined, so the last \<open>None\<close> case is never reached.
\<close>

definition init :: "'w Remote \<Rightarrow> Project \<Rightarrow> 'w \<Rightarrow> (error + string \<times> string) \<times> Project \<times> 'w" where
  "init R this w =
     (case graphql R (owner (desc this)) (projectNumber (desc this)) (isOrg (desc this)) w of
        (Inl e, w1) \<Rightarrow> (Inl (FetchFailed e), this, w1)
      | (Inr projectRes, w1) \<Rightarrow>
          if isOrg (desc this) \<and> organization projectRes = None
          then (Inl (BoardNotFound True), this, w1)
          else if \<not> isOrg (desc this) \<and> user projectRes = None
          then (Inl (BoardNotFound False), this, w1)
          else
            (case (if isOrg (desc this) then organization projectRes else user projectRes) of
               Some prjv2 \<Rightarrow>
                 (Inr (pv_id prjv2, pv_title prjv2),
                  this\<lparr>projectID := Some (pv_id prjv2),
                       fieldsMap := initFields (fieldsMap this) (pv_nodes prjv2)\<rparr>,
                  w1)
             | None \<Rightarrow> (Inl (BoardNotFound (isOrg (desc this))), this, w1)))"

subsection \<open>\<^verbatim>\<open>addToProject\<close>\<close>

text \<open>
  The result is the value returned or the error thrown, the object \<^verbatim>\<open>this\<close>
  after the call, the calls issued and the world after them. \<open>setStatus\<close> is the
  part of \<^verbatim>\<open>addToProject\<close> after the \<^verbatim>\<open>if\<close> on \<^verbatim>\<open>item\<close> (from
  \<^verbatim>\<open>const wantedStatus\<close> to the \<^verbatim>\<open>return\<close>), which both branches reach with
  an \<^verbatim>\<open>item\<close>; \<open>cs\<close> are the calls issued before it, and \<open>L\<close> is the
  runtime's \<^verbatim>\<open>toLowerCase\<close>.
\<close>

definition setStatus ::
  "lowering \<Rightarrow> 'w Remote \<Rightarrow> Project \<Rightarrow> string \<Rightarrow> ProjectItem \<Rightarrow> bool \<Rightarrow> call list \<Rightarrow> 'w
    \<Rightarrow> (error + string) \<times> Project \<times> call list \<times> 'w" where
  "setStatus L R this pid item isPullRequest cs w =
     (let wantedStatus =
        (if isPullRequest then prs (defaultStatus this) else issues (defaultStatus this))
      in
      case getStatusField L this wantedStatus of
        Inl e \<Rightarrow> (Inl e, this, cs, w)
      | Inr None \<Rightarrow> (Inl (StatusValueNotFound wantedStatus), this, cs, w)
      | Inr (Some newStatus) \<Rightarrow>
          (case updateIssueStatus R pid (prjItemID item) (fieldID newStatus)
                  (value_id newStatus) w of
             (Inl e, w1) \<Rightarrow>
               (Inl (StatusUpdateFailed e), this,
                cs @ [SetStatus pid (prjItemID item) (fieldID newStatus) (value_id newStatus)], w1)
           | (Inr u, w1) \<Rightarrow>
               (Inr (prjItemID item), this,
                cs @ [SetStatus pid (prjItemID item) (fieldID newStatus) (value_id newStatus)], w1)))"

definition addToProject ::
  "lowering \<Rightarrow> 'w Remote \<Rightarrow> Project \<Rightarrow> string \<Rightarrow> bool \<Rightarrow> 'w
    \<Rightarrow> (error + string) \<times> Project \<times> call list \<times> 'w" where
  "addToProject L R this itemID isPullRequest w =
     (case projectID this of
        None \<Rightarrow> (Inl NotInitialized, this, [], w)
      | Some pid \<Rightarrow>
     (case getProjectItem R itemID pid w of
        (Inl e, w1) \<Rightarrow> (Inl (LookupFailed e), this, [Lookup itemID pid], w1)
      | (Inr None, w1) \<Rightarrow>
          (case addProjectItem R itemID pid w1 of
             (Inl e, w2) \<Rightarrow>
               (Inl AddFailed, this, [Lookup itemID pid, Add itemID pid], w2)
           | (Inr None, w2) \<Rightarrow>
               (Inl AddReturnedNoID, this, [Lookup itemID pid, Add itemID pid], w2)
           | (Inr (Some newID), w2) \<Rightarrow>
               (case getProjectItem R itemID pid w2 of
                  (Inl e, w3) \<Rightarrow>
                    (Inl (LookupFailed e), this,
                     [Lookup itemID pid, Add itemID pid, Lookup itemID pid], w3)
                | (Inr None, w3) \<Rightarrow>
                    (Inl MembershipNotFoundAfterAdd, this,
                     [Lookup itemID pid, Add itemID pid, Lookup itemID pid], w3)
                | (Inr (Some item), w3) \<Rightarrow>
                    if prjItemID item \<noteq> newID
                    then (Inl (MembershipIDMismatch (prjItemID item) newID), this,
                          [Lookup itemID pid, Add itemID pid, Lookup itemID pid], w3)
                    else setStatus L R this pid item isPullRequest
                           [Lookup itemID pid, Add itemID pid, Lookup itemID pid] w3))
      | (Inr (Some item), w1) \<Rightarrow>
          setStatus L R this pid item isPullRequest [Lookup itemID pid] w1))"

subsection \<open>A remote board for the scenarios\<close>

text \<open>
  Modelled from the spec: the state of the remote project board behind the
  primitives of its section 6; the helpers of \<^verbatim>\<open>./helpers\<close> and the service
  they call are not among the sources. A board holds what \<^verbatim>\<open>fetchBoardSchema\<close>
  answers, its membership records (item id, board-item id) and the status
  assignments made (board-item id, field id, option id), newest first.
\<close>

record Board =
  schema :: ProjectQueryResponse
  members :: "(string \<times> string) list"
  assignments :: "(string \<times> string option \<times> string) list"

text \<open>
  Modelled from the spec: \<^verbatim>\<open>fetchBoardSchema\<close>, \<^verbatim>\<open>lookupMembership\<close>,
  \<^verbatim>\<open>addToBoard\<close> and \<^verbatim>\<open>setFieldValue\<close> of its section 6 on a board. The fetch
  answers the schema, a lookup reads the membership records, an add creates a
  membership record and returns its identifier, a status update records the
  assignment; none of them fails.
\<close>

definition boardRemote :: "Board Remote" where
  "boardRemote =
     \<lparr>graphql = (\<lambda>ownr number org b. (Inr (schema b), b)),
      getProjectItem =
        (\<lambda>itemID pid b.
           (Inr (map_option (\<lambda>i. \<lparr>prjItemID = i\<rparr>) (map_of (members b) itemID)), b)),
      addProjectItem =
        (\<lambda>itemID pid b.
           (Inr (Some (''PVTI_'' @ itemID)),
            b\<lparr>members := (itemID, ''PVTI_'' @ itemID) # members b\<rparr>)),
      updateIssueStatus =
        (\<lambda>pid item fid oid b. (Inr (), b\<lparr>assignments := (item, fid, oid) # assignments b\<rparr>))\<rparr>"

text \<open>
  Modelled from the spec: a remote that breaks the consistency invariant of its
  section 4.4, step 2b. The add mutation returns an identifier that is not the
  one of the membership record it creates.
\<close>

definition mismatchRemote :: "Board Remote" where
  "mismatchRemote =
     boardRemote
       \<lparr>addProjectItem :=
          (\<lambda>itemID pid b.
             (Inr (Some (''PVTI_other'')),
              b\<lparr>members := (itemID, ''PVTI_'' @ itemID) # members b\<rparr>))\<rparr>"

text \<open>
  Modelled from the spec: "no intervening external state change" between two
  calls. What a lookup answers is changed neither by a lookup nor by a status
  update; only an add may change it.
\<close>

definition lookup_stable :: "'w Remote \<Rightarrow> bool" where
  "lookup_stable R \<longleftrightarrow>
     (\<forall>x pid y pid' w.
        fst (getProjectItem R x pid (snd (getProjectItem R y pid' w)))
          = fst (getProjectItem R x pid w))
     \<and> (\<forall>x pid p i f v w.
        fst (getProjectItem R x pid (snd (updateIssueStatus R p i f v w)))
          = fst (getProjectItem R x pid w))"

text \<open>
  Modelled from the spec: the board URL of the end-to-end scenario of its
  section 8, \<^verbatim>\<open>https://.../orgs/acme/projects/7\<close>, on a host.
\<close>

definition acmeURL :: string where
  "acmeURL = ''https://github.com/orgs/acme/projects/7''"

text \<open>
  Modelled from the spec: the board of that scenario, owned by the organization
  \<^verbatim>\<open>acme\<close>, with given schema nodes and membership records and no status
  assignment yet.
\<close>

definition acmeBoard :: "ProjectFieldEntry list \<Rightarrow> (string \<times> string) list \<Rightarrow> Board" where
  "acmeBoard nodes ms =
     \<lparr>schema =
        \<lparr>organization = Some \<lparr>pv_id = ''PVT_7'', pv_title = ''Roadmap'', pv_nodes = nodes\<rparr>,
         user = None\<rparr>,
      members = ms,
      assignments = []\<rparr>"

text \<open>
  Modelled from the spec: the orchestrator of that scenario as constructed, with
  given default status labels.
\<close>

definition acmeNew :: "DefaultStatus \<Rightarrow> Project" where
  "acmeNew ds =
     \<lparr>token = ''ghp_token'',
      desc = \<lparr>owner = ''acme'', projectNumber = 7, isOrg = True\<rparr>,
      projectID = None,
      fieldsMap = Map.empty,
      defaultStatus = ds\<rparr>"

text \<open>
  Modelled from the spec: the orchestrator of that scenario after
  \<^verbatim>\<open>initialize()\<close> on a board with the given schema nodes.
\<close>

definition acmeProject :: "ProjectFieldEntry list \<Rightarrow> DefaultStatus \<Rightarrow> Project" where
  "acmeProject nodes ds =
     (acmeNew ds)\<lparr>projectID := Some ''PVT_7'', fieldsMap := initFields Map.empty nodes\<rparr>"

text \<open>
  Modelled from the spec: a schema node for the field named \<^verbatim>\<open>Status\<close> with
  given options.
\<close>

definition statusEntry :: "FieldOption list \<Rightarrow> ProjectFieldEntry" where
  "statusEntry opts = \<lparr>f_id = Some ''PVTSSF_1'', f_name = ''Status'', f_options = opts\<rparr>"

text \<open>
  Modelled from the spec: the options \<^verbatim>\<open>["Todo", "In Progress", "<U+2705> Done"]\<close>
  of the status resolver example of its section 8, the symbol in UTF-8.
\<close>

definition doneOptions :: "FieldOption list" where
  "doneOptions =
     [\<lparr>o_id = ''o1'', o_name = ''Todo''\<rparr>,
      \<lparr>o_id = ''o2'', o_name = ''In Progress''\<rparr>,
      \<lparr>o_id = ''o3'', o_name = [CHR 0xE2, CHR 0x9C, CHR 0x85] @ '' Done''\<rparr>]"

text \<open>
  Modelled from the spec: the options
  \<^verbatim>\<open>[{id:"o1",name:"<U+1F4CB> Backlog"},{id:"o2",name:"Done"}]\<close> of the
  end-to-end scenario of its section 8, the symbol in UTF-8.
\<close>

definition backlogOptions :: "FieldOption list" where
  "backlogOptions =
     [\<lparr>o_id = ''o1'', o_name = [CHR 0xF0, CHR 0x9F, CHR 0x93, CHR 0x8B] @ '' Backlog''\<rparr>,
      \<lparr>o_id = ''o2'', o_name = ''Done''\<rparr>]"

section \<open>Properties\<close>

subsection \<open>The URL resolver\<close>

lemma literal_Some: "literal lit s = Some r \<longleftrightarrow> s = lit @ r"
  by (auto simp: literal_def prefix_def)

lemma literal_None: "literal lit s = None \<longleftrightarrow> \<not> prefix lit s"
  by (simp add: literal_def)

lemma alternative_Some:
  "alternative s = Some (ty, r) \<longleftrightarrow> (ty = ''orgs'' \<or> ty = ''users'') \<and> s = ty @ r"
  by (auto simp: alternative_def literal_Some literal_None prefix_def split: option.splits)

lemma takeWhile_run:
  "\<forall>x\<in>set xs. P x \<Longrightarrow> ys = [] \<or> \<not> P (hd ys) \<Longrightarrow> takeWhile P (xs @ ys) = xs"
  by (cases ys) (simp_all add: takeWhile_tail)

lemma dropWhile_run:
  "\<forall>x\<in>set xs. P x \<Longrightarrow> ys = [] \<or> \<not> P (hd ys) \<Longrightarrow> dropWhile P (xs @ ys) = ys"
  by (cases ys) (simp_all add: dropWhile_append2)

text \<open>
  What \<open>match_here\<close> returns, said without the matcher: the string starts with
  the pattern, the groups are as required, and the digits are followed by no
  further digit.
\<close>

lemma match_here_Some:
  "match_here s = Some (ty, ow, ds) \<longleftrightarrow>
     (\<exists>rest. s = ''/'' @ ty @ ''/'' @ ow @ ''/projects/'' @ ds @ rest
        \<and> (rest = [] \<or> \<not> isDigit (hd rest)))
     \<and> (ty = ''orgs'' \<or> ty = ''users'')
     \<and> ow \<noteq> [] \<and> CHR ''/'' \<notin> set ow
     \<and> ds \<noteq> [] \<and> list_all isDigit ds"
  (is "?L \<longleftrightarrow> ?R")
proof
  assume ?L
  then obtain s1 s2 s3 s4 where
    s1: "s = ''/'' @ s1" and s2: "s1 = ty @ s2" and ty: "ty = ''orgs'' \<or> ty = ''users''"
    and s3: "s2 = ''/'' @ s3" and ow: "ow = takeWhile (\<lambda>c. c \<noteq> CHR ''/'') s3" "ow \<noteq> []"
    and s4: "dropWhile (\<lambda>c. c \<noteq> CHR ''/'') s3 = ''/projects/'' @ s4"
    and ds: "ds = takeWhile isDigit s4" "ds \<noteq> []"
    by (auto simp: match_here_def literal_Some alternative_Some Let_def
             split: option.splits if_splits prod.splits)
  have a: "s3 = ow @ ''/projects/'' @ s4"
    using takeWhile_dropWhile_id [of "\<lambda>c. c \<noteq> CHR ''/''" s3] ow s4 by simp
  have b: "s4 = ds @ dropWhile isDigit s4"
    using ds by simp
  have c: "dropWhile isDigit s4 = [] \<or> \<not> isDigit (hd (dropWhile isDigit s4))"
    using hd_dropWhile [of isDigit s4] by blast
  have d: "CHR ''/'' \<notin> set ow"
    using ow(1) by (auto dest: set_takeWhileD)
  have e: "list_all isDigit ds"
    using ds(1) by (auto simp: list_all_iff dest: set_takeWhileD)
  have "s = ''/'' @ ty @ ''/'' @ ow @ ''/projects/'' @ ds @ dropWhile isDigit s4"
    using s1 s2 s3 a b by simp
  with c d e ty ow(2) ds(2) show ?R by blast
next
  assume ?R
  then obtain rest where
    s: "s = ''/'' @ ty @ ''/'' @ ow @ ''/projects/'' @ ds @ rest"
    and rest: "rest = [] \<or> \<not> isDigit (hd rest)"
    and ty: "ty = ''orgs'' \<or> ty = ''users''"
    and ow: "ow \<noteq> []" "CHR ''/'' \<notin> set ow"
    and ds: "ds \<noteq> []" "list_all isDigit ds"
    by blast
  let ?s3 = "ow @ ''/projects/'' @ ds @ rest"
  have t: "takeWhile (\<lambda>c. c \<noteq> CHR ''/'') ?s3 = ow"
    using ow(2) by (intro takeWhile_run) auto
  have dr: "dropWhile (\<lambda>c. c \<noteq> CHR ''/'') ?s3 = ''/projects/'' @ ds @ rest"
    using ow(2) by (intro dropWhile_run) auto
  have td: "takeWhile isDigit (ds @ rest) = ds"
    using ds(2) rest by (intro takeWhile_run) (auto simp: list_all_iff)
  have l1: "literal ''/'' s = Some (ty @ ''/'' @ ?s3)"
    using s by (simp add: literal_Some)
  have l2: "alternative (ty @ ''/'' @ ?s3) = Some (ty, ''/'' @ ?s3)"
    using ty by (simp add: alternative_Some)
  have l3: "literal ''/'' (''/'' @ ?s3) = Some ?s3"
    by (simp add: literal_Some)
  have l4: "literal ''/projects/'' (''/projects/'' @ ds @ rest) = Some (ds @ rest)"
    by (simp add: literal_Some)
  show ?L
    unfolding match_here_def l1 option.case l2 prod.case l3 Let_def t dr l4 td
    using ow(1) ds(1) by simp
qed

lemma match_here_pattern: "match_here s = Some (ty, ow, ds) \<Longrightarrow> pattern_at s ty ow ds"
  unfolding match_here_Some pattern_at_def by blast

lemma pattern_match_here:
  assumes "pattern_at s ty ow ds"
  shows "\<exists>ds'. match_here s = Some (ty, ow, ds') \<and> prefix ds ds'"
proof -
  from assms obtain rest where
    s: "s = ''/'' @ ty @ ''/'' @ ow @ ''/projects/'' @ ds @ rest"
    and p: "ty = ''orgs'' \<or> ty = ''users''" "ow \<noteq> []" "CHR ''/'' \<notin> set ow"
       "ds \<noteq> []" "list_all isDigit ds"
    unfolding pattern_at_def by blast
  let ?ds = "ds @ takeWhile isDigit rest"
  have "s = ''/'' @ ty @ ''/'' @ ow @ ''/projects/'' @ ?ds @ dropWhile isDigit rest"
    using s by simp
  moreover have "dropWhile isDigit rest = [] \<or> \<not> isDigit (hd (dropWhile isDigit rest))"
    using hd_dropWhile [of isDigit rest] by blast
  moreover have "?ds \<noteq> []" "list_all isDigit ?ds"
    using p by (auto simp: list_all_iff dest: set_takeWhileD)
  ultimately have "match_here s = Some (ty, ow, ?ds)"
    unfolding match_here_Some using p by blast
  then show ?thesis by auto
qed

lemma match_here_None: "match_here s = None \<longleftrightarrow> (\<forall>ty ow ds. \<not> pattern_at s ty ow ds)"
proof
  assume "match_here s = None"
  then show "\<forall>ty ow ds. \<not> pattern_at s ty ow ds"
    using pattern_match_here by fastforce
next
  assume a: "\<forall>ty ow ds. \<not> pattern_at s ty ow ds"
  show "match_here s = None"
  proof (cases "match_here s")
    case None
    then show ?thesis .
  next
    case (Some g)
    obtain ty ow ds where "g = (ty, ow, ds)" by (cases g)
    with Some a match_here_pattern show ?thesis by blast
  qed
qed

lemma match_here_Nil: "match_here [] = None"
  by (simp add: match_here_def literal_def)

lemma regex_match_None:
  "regex_match url = None \<longleftrightarrow> (\<forall>s. suffix s url \<longrightarrow> match_here s = None)"
  by (induction url) (auto simp: suffix_Cons match_here_Nil split: option.splits)

lemma regex_match_Some:
  "regex_match url = Some g \<Longrightarrow>
     \<exists>s. suffix s url \<and> match_here s = Some g
       \<and> (\<forall>s'. suffix s' url \<longrightarrow> length s < length s' \<longrightarrow> match_here s' = None)"
proof (induction url)
  case Nil
  then show ?case by (simp add: match_here_Nil)
next
  case (Cons c cs)
  show ?case
  proof (cases "match_here (c # cs)")
    case (Some g')
    with Cons.prems have m: "match_here (c # cs) = Some g" by simp
    have "\<forall>s'. suffix s' (c # cs) \<longrightarrow> length (c # cs) < length s' \<longrightarrow> match_here s' = None"
      using suffix_length_le by fastforce
    with m show ?thesis
      using suffix_order.refl by blast
  next
    case None
    with Cons.prems have "regex_match cs = Some g" by simp
    with Cons.IH obtain s where
      e: "suffix s cs" and m: "match_here s = Some g"
      and l: "\<forall>s'. suffix s' cs \<longrightarrow> length s < length s' \<longrightarrow> match_here s' = None"
      by blast
    have "\<forall>s'. suffix s' (c # cs) \<longrightarrow> length s < length s' \<longrightarrow> match_here s' = None"
      using l None by (auto simp: suffix_Cons)
    moreover have "suffix s (c # cs)"
      using e by (simp add: suffix_Cons)
    ultimately show ?thesis
      using m by blast
  qed
qed

lemma pattern_unique:
  assumes m: "match_here s = Some (ty, ow, ds)" and p: "pattern_at s ty' ow' ds'"
  shows "ty' = ty \<and> ow' = ow \<and> prefix ds' ds"
proof -
  from pattern_match_here [OF p] obtain ds'' where
    "match_here s = Some (ty', ow', ds'')" "prefix ds' ds''" by blast
  with m show ?thesis by simp
qed

lemma parseURL_no_match:
  assumes n: "\<not> (\<exists>pre s ty ow ds. url = pre @ s \<and> pattern_at s ty ow ds)"
  shows "parseURL url = Inl (InvalidURL url)"
proof -
  have "\<forall>s. suffix s url \<longrightarrow> match_here s = None"
  proof (intro allI impI)
    fix s assume "suffix s url"
    then obtain pre where "url = pre @ s" by (auto simp: suffix_def)
    with n have "\<forall>ty ow ds. \<not> pattern_at s ty ow ds" by blast
    then show "match_here s = None" by (simp add: match_here_None)
  qed
  then have "regex_match url = None"
    by (simp add: regex_match_None)
  then show "parseURL url = Inl (InvalidURL url)"
    by (simp add: parseURL_def)
qed

lemma regex_match_found:
  assumes u0: "url = pre0 @ s0" and p0: "pattern_at s0 ty0 ow0 ds0"
  shows "\<exists>ty ow ds. regex_match url = Some (ty, ow, ds)"
proof -
  from p0 have "match_here s0 \<noteq> None"
    by (simp add: match_here_None) blast
  moreover from u0 have "suffix s0 url"
    by (simp add: suffix_def)
  ultimately have "regex_match url \<noteq> None"
    by (auto simp: regex_match_None)
  then obtain g0 where "regex_match url = Some g0"
    by blast
  then show ?thesis
    by (cases g0) simp
qed

lemma regex_match_leftmost:
  assumes g: "regex_match url = Some (ty, ow, ds)"
  shows "\<exists>pre s. url = pre @ s \<and> match_here s = Some (ty, ow, ds)
      \<and> (\<forall>pre' s' ty' ow' ds'.
            url = pre' @ s' \<and> pattern_at s' ty' ow' ds' \<longrightarrow> length pre \<le> length pre')"
proof -
  from regex_match_Some [OF g] obtain s where
    sf: "suffix s url" and m: "match_here s = Some (ty, ow, ds)"
    and l: "\<forall>s'. suffix s' url \<longrightarrow> length s < length s' \<longrightarrow> match_here s' = None"
    by blast
  from sf obtain pre where e: "url = pre @ s"
    by (auto simp: suffix_def)
  have left: "length pre \<le> length pre'"
    if a1: "url = pre' @ s'" and a2: "pattern_at s' ty' ow' ds'" for pre' s' ty' ow' ds'
  proof -
    from a2 have nn: "match_here s' \<noteq> None"
      by (simp add: match_here_None) blast
    from a1 have "suffix s' url" by (simp add: suffix_def)
    with l nn have "\<not> length s < length s'" by auto
    moreover have "length url = length pre + length s"
      unfolding e by simp
    moreover have "length url = length pre' + length s'"
      unfolding a1 by simp
    ultimately show ?thesis
      by linarith
  qed
  show ?thesis
  proof (intro exI conjI allI impI)
    show "url = pre @ s" by (rule e)
    show "match_here s = Some (ty, ow, ds)" by (rule m)
    show "length pre \<le> length pre'"
      if "url = pre' @ s' \<and> pattern_at s' ty' ow' ds'" for pre' s' ty' ow' ds'
      using that left by blast
  qed
qed

lemma parseURL_match:
  assumes "\<exists>pre s ty ow ds. url = pre @ s \<and> pattern_at s ty ow ds"
  shows "\<exists>d pre s ty ds.
          parseURL url = Inr d \<and> url = pre @ s \<and> pattern_at s ty (owner d) ds
        \<and> (\<forall>pre' s' ty' ow' ds'.
              url = pre' @ s' \<and> pattern_at s' ty' ow' ds' \<longrightarrow> length pre \<le> length pre')
        \<and> (\<forall>ty' ow' ds'. pattern_at s ty' ow' ds' \<longrightarrow> ty' = ty \<and> ow' = owner d \<and> prefix ds' ds)
        \<and> (isOrg d \<longleftrightarrow> ty = ''orgs'')
        \<and> (parseInt ds < 2 ^ 53 \<longrightarrow> projectNumber d = parseInt ds)"
proof -
  from assms obtain pre0 s0 ty0 ow0 ds0 where "url = pre0 @ s0" "pattern_at s0 ty0 ow0 ds0"
    by blast
  from regex_match_found [OF this] obtain ty ow ds where
    g: "regex_match url = Some (ty, ow, ds)" by blast
  from regex_match_leftmost [OF g] obtain pre s where
    e: "url = pre @ s" and m: "match_here s = Some (ty, ow, ds)"
    and left: "\<forall>pre' s' ty' ow' ds'.
            url = pre' @ s' \<and> pattern_at s' ty' ow' ds' \<longrightarrow> length pre \<le> length pre'"
    by blast
  define d where "d = \<lparr>owner = ow, projectNumber = parseInt ds, isOrg = (ty = ''orgs'')\<rparr>"
  have sel: "owner d = ow" "projectNumber d = parseInt ds" "isOrg d \<longleftrightarrow> ty = ''orgs''"
    by (simp_all add: d_def)
  have r: "parseURL url = Inr d"
    using g by (simp add: parseURL_def d_def)
  have p: "pattern_at s ty (owner d) ds"
    unfolding sel by (rule match_here_pattern [OF m])
  have greedy: "\<forall>ty' ow' ds'. pattern_at s ty' ow' ds' \<longrightarrow> ty' = ty \<and> ow' = owner d \<and> prefix ds' ds"
    unfolding sel using pattern_unique [OF m] by blast
  have n: "parseInt ds < 2 ^ 53 \<longrightarrow> projectNumber d = parseInt ds"
    unfolding sel by simp
  from r e p left greedy sel(3) n show ?thesis
    by blast
qed

text \<open>
  Claim C5. Whenever the pattern \<^verbatim>\<open>/(orgs|users)/<owner>/projects/<number>\<close>
  occurs somewhere in the URL, \<open>parseURL\<close> returns a descriptor taken from the
  leftmost occurrence (no occurrence starts earlier) with the longest run of
  digits: the owner is its owner group, \<open>isOrg\<close> holds exactly when its first
  group is \<^verbatim>\<open>orgs\<close>, and the project number is the decimal value of its digits
  (stated where the double of the source is exact). Whenever the pattern occurs
  nowhere, \<open>parseURL\<close> fails with \<open>InvalidURL\<close>.
\<close>

theorem parseURL_spec:
  "((\<exists>pre s ty ow ds. url = pre @ s \<and> pattern_at s ty ow ds) \<longrightarrow>
      (\<exists>d pre s ty ds.
          parseURL url = Inr d \<and> url = pre @ s \<and> pattern_at s ty (owner d) ds
        \<and> (\<forall>pre' s' ty' ow' ds'.
              url = pre' @ s' \<and> pattern_at s' ty' ow' ds' \<longrightarrow> length pre \<le> length pre')
        \<and> (\<forall>ty' ow' ds'. pattern_at s ty' ow' ds' \<longrightarrow> ty' = ty \<and> ow' = owner d \<and> prefix ds' ds)
        \<and> (isOrg d \<longleftrightarrow> ty = ''orgs'')
        \<and> (parseInt ds < 2 ^ 53 \<longrightarrow> projectNumber d = parseInt ds)))
   \<and> (\<not> (\<exists>pre s ty ow ds. url = pre @ s \<and> pattern_at s ty ow ds) \<longrightarrow>
        parseURL url = Inl (InvalidURL url))"
  using parseURL_match [of url] parseURL_no_match [of url] by (intro conjI impI)

theorem parseURL_spec_witness:
  "(\<exists>pre s ty ow ds. ''https://github.com/orgs/acme/projects/7'' = pre @ s \<and> pattern_at s ty ow ds)
   \<and> (\<exists>d. parseURL ''https://github.com/orgs/acme/projects/7'' = Inr d
          \<and> isOrg d \<and> owner d = ''acme'' \<and> projectNumber d = 7)
   \<and> (\<exists>d. parseURL ''https://github.com/users/bob/projects/12/views/1'' = Inr d
          \<and> \<not> isOrg d \<and> owner d = ''bob'' \<and> projectNumber d = 12)
   \<and> \<not> (\<exists>pre s ty ow ds. ''https://github.com/acme/projects/7'' = pre @ s \<and> pattern_at s ty ow ds)
   \<and> parseURL ''https://github.com/acme/projects/7'' =
        Inl (InvalidURL ''https://github.com/acme/projects/7'')"
proof -
  let ?U = "''https://github.com/orgs/acme/projects/7''"
  let ?V = "''https://github.com/acme/projects/7''"
  have p: "pattern_at ''/orgs/acme/projects/7'' ''orgs'' ''acme'' ''7''"
    by (simp add: pattern_at_def isDigit_def)
  have "?U = ''https://github.com'' @ ''/orgs/acme/projects/7''"
    by simp
  with p have h: "\<exists>pre s ty ow ds. ?U = pre @ s \<and> pattern_at s ty ow ds"
    by blast
  from parseURL_spec [of ?U] h obtain d where "parseURL ?U = Inr d"
    by blast
  have u: "parseURL ?U = Inr \<lparr>owner = ''acme'', projectNumber = 7, isOrg = True\<rparr>"
    by code_simp
  have b: "parseURL ''https://github.com/users/bob/projects/12/views/1''
      = Inr \<lparr>owner = ''bob'', projectNumber = 12, isOrg = False\<rparr>"
    by code_simp
  have v: "parseURL ?V = Inl (InvalidURL ?V)"
    by code_simp
  have n: "\<not> (\<exists>pre s ty ow ds. ?V = pre @ s \<and> pattern_at s ty ow ds)"
    using parseURL_spec [of ?V] v by auto
  from parseURL_spec [of ?V] n have "parseURL ?V = Inl (InvalidURL ?V)"
    by blast
  with h u b n show ?thesis
    by simp
qed

subsection \<open>The scenario objects and the remote board\<close>

lemma acme_constructed: "Project_new ''ghp_token'' acmeURL ds = Inr (acmeNew ds)"
proof -
  have "parseURL acmeURL = Inr \<lparr>owner = ''acme'', projectNumber = 7, isOrg = True\<rparr>"
    unfolding acmeURL_def by code_simp
  then show ?thesis
    by (simp add: Project_new_def getOctokit_def acmeNew_def)
qed

lemma acme_init:
  "init boardRemote (acmeNew ds) (acmeBoard nodes ms)
     = (Inr (''PVT_7'', ''Roadmap''), acmeProject nodes ds, acmeBoard nodes ms)"
  by (simp add: init_def boardRemote_def acmeNew_def acmeBoard_def acmeProject_def)

lemma acme_status:
  "fieldsMap (acmeProject [statusEntry opts] ds) ''Status'' = Some (statusEntry opts)"
  by (simp add: acmeProject_def acmeNew_def statusEntry_def setField_def)

lemma acme_projectID: "projectID (acmeProject nodes ds) = Some ''PVT_7''"
  by (simp add: acmeProject_def)

lemma acme_defaultStatus: "defaultStatus (acmeProject nodes ds) = ds"
  by (simp add: acmeProject_def acmeNew_def)

lemma acme_no_status: "fieldsMap (acmeProject [] ds) ''Status'' = None"
  by (simp add: acmeProject_def acmeNew_def)

lemma acme_members: "members (acmeBoard nodes ms) = ms"
  by (simp add: acmeBoard_def)

lemma boardRemote_simps:
  "graphql boardRemote ownr n org b = (Inr (schema b), b)"
  "getProjectItem boardRemote x pid b
     = (Inr (map_option (\<lambda>i. \<lparr>prjItemID = i\<rparr>) (map_of (members b) x)), b)"
  "addProjectItem boardRemote x pid b
     = (Inr (Some (''PVTI_'' @ x)), b\<lparr>members := (x, ''PVTI_'' @ x) # members b\<rparr>)"
  "updateIssueStatus boardRemote pid i f v b
     = (Inr (), b\<lparr>assignments := (i, f, v) # assignments b\<rparr>)"
  by (simp_all add: boardRemote_def)

lemma mismatchRemote_simps:
  "getProjectItem mismatchRemote x pid b
     = (Inr (map_option (\<lambda>i. \<lparr>prjItemID = i\<rparr>) (map_of (members b) x)), b)"
  "addProjectItem mismatchRemote x pid b
     = (Inr (Some ''PVTI_other''), b\<lparr>members := (x, ''PVTI_'' @ x) # members b\<rparr>)"
  by (simp_all add: mismatchRemote_def boardRemote_def)

lemma boardRemote_stable: "lookup_stable boardRemote"
  by (simp add: lookup_stable_def boardRemote_simps)

lemma bad_url_no_match:
  "\<not> (\<exists>pre s ty ow ds. ''https://github.com/acme/projects/7'' = pre @ s \<and> pattern_at s ty ow ds)"
proof
  assume "\<exists>pre s ty ow ds. ''https://github.com/acme/projects/7'' = pre @ s \<and> pattern_at s ty ow ds"
  from parseURL_match [OF this] obtain d where
    "parseURL ''https://github.com/acme/projects/7'' = Inr d" by blast
  moreover have "parseURL ''https://github.com/acme/projects/7''
      = Inl (InvalidURL ''https://github.com/acme/projects/7'')"
    by code_simp
  ultimately show False by simp
qed

subsection \<open>The field index\<close>

text \<open>
  \<open>initFields\<close> is a left fold of the entries into the map. Apart from the key
  \<^verbatim>\<open>__proto__\<close>, its keys are the names of the entries with an \<^verbatim>\<open>id\<close>, and
  the last such entry of a name is the one held.
\<close>

lemma initFields_append:
  "initFields fs (es @ es') = initFields (initFields fs es) es'"
  by (induction es arbitrary: fs) simp_all

lemma initFields_foldl:
  "initFields fs es =
     foldl (\<lambda>m e. if f_id e = None then m else setField m (f_name e) e) fs es"
  by (induction es arbitrary: fs) simp_all

lemma dom_initFields:
  "dom (initFields fs es) =
     dom fs \<union> {f_name e | e. e \<in> set es \<and> f_id e \<noteq> None \<and> f_name e \<noteq> ''__proto__''}"
  by (induction es arbitrary: fs) (auto simp: setField_def)

lemma initFields_later_wins:
  assumes "f_id e \<noteq> None" and "f_name e \<noteq> ''__proto__''"
    and "\<forall>e'\<in>set es'. f_id e' \<noteq> None \<longrightarrow> f_name e' \<noteq> f_name e"
  shows "initFields fs (es @ e # es') (f_name e) = Some e"
proof -
  have keep: "initFields m es' k = m k"
    if "\<forall>e'\<in>set es'. f_id e' \<noteq> None \<longrightarrow> f_name e' \<noteq> k" for m k es'
    using that by (induction es' arbitrary: m) (auto simp: setField_def)
  show ?thesis
    using assms keep [of es' "f_name e"] by (auto simp: initFields_append setField_def)
qed

lemma initFields_Nil: "initFields Map.empty [] = Map.empty"
  by simp

text \<open>
  Claim C6. The keys of the field index are to be the names of the entries with
  an \<^verbatim>\<open>id\<close>. The source stores an entry with
  \<^verbatim>\<open>this.fields[entry.name] = entry\<close> on an object made by \<^verbatim>\<open>{}\<close>, and for
  the field name \<^verbatim>\<open>__proto__\<close> that assignment creates no key: the entry below
  has an \<^verbatim>\<open>id\<close>, and the index built from it alone has no key at all, which
  is what \<^verbatim>\<open>Object.keys(this.fields)\<close> then lists.
\<close>

theorem initFields_proto_key:
  "f_id \<lparr>f_id = Some ''PVTSSF_9'', f_name = ''__proto__'', f_options = []\<rparr> = Some ''PVTSSF_9''
   \<and> dom (initFields Map.empty
          [\<lparr>f_id = Some ''PVTSSF_9'', f_name = ''__proto__'', f_options = []\<rparr>]) = {}"
  by (simp add: setField_def)

subsection \<open>The paths of \<^verbatim>\<open>addToProject\<close>\<close>

lemma getStatusField_error: "getStatusField L this wanted = Inl e \<Longrightarrow> e = MissingStatusField"
  by (auto simp: getStatusField_def split: option.splits)

lemma setStatus_this: "setStatus L R this pid item b cs w = (r, this', cs', w') \<Longrightarrow> this' = this"
  by (auto simp: setStatus_def Let_def split: sum.splits option.splits prod.splits)

lemma setStatus_calls:
  "setStatus L R this pid item b cs w = (r, this', cs', w') \<Longrightarrow>
     cs' = cs \<or> (\<exists>f v. cs' = cs @ [SetStatus pid (prjItemID item) f v])"
  by (auto simp: setStatus_def Let_def split: sum.splits option.splits prod.splits)

lemma setStatus_error:
  "setStatus L R this pid item b cs w = (Inl e, this', cs', w') \<Longrightarrow>
     e = MissingStatusField
     \<or> e = StatusValueNotFound (if b then prs (defaultStatus this) else issues (defaultStatus this))
     \<or> (\<exists>m. e = StatusUpdateFailed m)"
  by (auto simp: setStatus_def Let_def split: sum.splits option.splits prod.splits
           dest: getStatusField_error)

lemma setStatus_success:
  assumes "setStatus L R this pid item b cs w = (Inr a, this', cs', w')"
  shows "a = prjItemID item \<and> this' = this
     \<and> (\<exists>ns u. getStatusField L this
                  (if b then prs (defaultStatus this) else issues (defaultStatus this))
                  = Inr (Some ns)
            \<and> cs' = cs @ [SetStatus pid a (fieldID ns) (value_id ns)]
            \<and> updateIssueStatus R pid a (fieldID ns) (value_id ns) w = (Inr u, w'))"
  using assms
  by (auto simp: setStatus_def Let_def split: sum.splits option.splits prod.splits)

lemma setStatus_resolved:
  assumes "getStatusField L this (if b then prs (defaultStatus this) else issues (defaultStatus this))
             = Inr (Some ns)"
  shows "setStatus L R this pid item b cs w =
     (case updateIssueStatus R pid (prjItemID item) (fieldID ns) (value_id ns) w of
        (Inl e, w1) \<Rightarrow>
          (Inl (StatusUpdateFailed e), this,
           cs @ [SetStatus pid (prjItemID item) (fieldID ns) (value_id ns)], w1)
      | (Inr u, w1) \<Rightarrow>
          (Inr (prjItemID item), this,
           cs @ [SetStatus pid (prjItemID item) (fieldID ns) (value_id ns)], w1))"
  using assms by (simp add: setStatus_def Let_def)

lemma setStatus_no_field:
  "fieldsMap this ''Status'' = None \<Longrightarrow>
     setStatus L R this pid item b cs w = (Inl MissingStatusField, this, cs, w)"
  by (simp add: setStatus_def getStatusField_def Let_def)

lemma addToProject_uninit:
  "projectID this = None \<Longrightarrow> addToProject L R this x b w = (Inl NotInitialized, this, [], w)"
  by (simp add: addToProject_def)

lemma addToProject_paths:
  assumes "projectID this = Some pid"
  shows "addToProject L R this x b w =
     (case getProjectItem R x pid w of
        (Inl e, w1) \<Rightarrow> (Inl (LookupFailed e), this, [Lookup x pid], w1)
      | (Inr None, w1) \<Rightarrow>
          (case addProjectItem R x pid w1 of
             (Inl e, w2) \<Rightarrow> (Inl AddFailed, this, [Lookup x pid, Add x pid], w2)
           | (Inr None, w2) \<Rightarrow> (Inl AddReturnedNoID, this, [Lookup x pid, Add x pid], w2)
           | (Inr (Some newID), w2) \<Rightarrow>
               (case getProjectItem R x pid w2 of
                  (Inl e, w3) \<Rightarrow>
                    (Inl (LookupFailed e), this, [Lookup x pid, Add x pid, Lookup x pid], w3)
                | (Inr None, w3) \<Rightarrow>
                    (Inl MembershipNotFoundAfterAdd, this,
                     [Lookup x pid, Add x pid, Lookup x pid], w3)
                | (Inr (Some item), w3) \<Rightarrow>
                    if prjItemID item \<noteq> newID
                    then (Inl (MembershipIDMismatch (prjItemID item) newID), this,
                          [Lookup x pid, Add x pid, Lookup x pid], w3)
                    else setStatus L R this pid item b
                           [Lookup x pid, Add x pid, Lookup x pid] w3))
      | (Inr (Some item), w1) \<Rightarrow> setStatus L R this pid item b [Lookup x pid] w1)"
  using assms by (simp add: addToProject_def)

lemma addToProject_present:
  assumes "projectID this = Some pid" and "getProjectItem R x pid w = (Inr (Some item), w1)"
  shows "addToProject L R this x b w = setStatus L R this pid item b [Lookup x pid] w1"
  using assms by (simp add: addToProject_def)


lemma addToProject_this:
  assumes "addToProject L R this x b w = (r, this', cs, w')"
  shows "this' = this"
proof (cases "projectID this")
  case None
  with assms show ?thesis by (simp add: addToProject_uninit)
next
  case (Some pid)
  with assms show ?thesis
    by (auto simp: addToProject_paths split: prod.splits sum.splits option.splits if_splits
             dest: setStatus_this)
qed

lemma addToProject_initialized:
  assumes "projectID this = Some pid" and "addToProject L R this x b w = (r, this', cs, w')"
  shows "r \<noteq> Inl NotInitialized"
  using assms
  by (auto simp: addToProject_paths split: prod.splits sum.splits option.splits if_splits
           dest!: setStatus_error)

lemma addToProject_success_cases:
  assumes "addToProject L R this x b w = (Inr a, this', cs, w')"
  obtains
    (present) pid item w1 where
      "projectID this = Some pid" "getProjectItem R x pid w = (Inr (Some item), w1)"
      "setStatus L R this pid item b [Lookup x pid] w1 = (Inr a, this', cs, w')"
  | (added) pid item w1 w2 w3 where
      "projectID this = Some pid" "getProjectItem R x pid w = (Inr None, w1)"
      "addProjectItem R x pid w1 = (Inr (Some (prjItemID item)), w2)"
      "getProjectItem R x pid w2 = (Inr (Some item), w3)"
      "setStatus L R this pid item b [Lookup x pid, Add x pid, Lookup x pid] w3
         = (Inr a, this', cs, w')"
proof (cases "projectID this")
  case None
  with assms show ?thesis by (simp add: addToProject_uninit)
next
  case (Some pid)
  with assms present added show ?thesis
    by (auto simp: addToProject_paths split: prod.splits sum.splits option.splits if_splits)
qed

lemma addToProject_member:
  assumes pid: "projectID this = Some pid"
    and look: "fst (getProjectItem R x pid w) = Inr (Some item)"
    and ns: "getStatusField L this (if b then prs (defaultStatus this) else issues (defaultStatus this))
               = Inr (Some ns)"
    and run: "addToProject L R this x b w = (r, this', cs, w')"
  shows "cs = [Lookup x pid, SetStatus pid (prjItemID item) (fieldID ns) (value_id ns)]
     \<and> (r = Inr (prjItemID item) \<or> (\<exists>e. r = Inl (StatusUpdateFailed e)))"
proof -
  obtain w1 where l: "getProjectItem R x pid w = (Inr (Some item), w1)"
    using look by (cases "getProjectItem R x pid w") auto
  have "setStatus L R this pid item b [Lookup x pid] w1 = (r, this', cs, w')"
    using run pid l by (simp add: addToProject_paths)
  then show ?thesis
    unfolding setStatus_resolved [OF ns]
    by (auto split: prod.splits sum.splits)
qed

lemma init_cases:
  assumes "init R p v = (r, this, v')"
  shows "(\<exists>m. graphql R (owner (desc p)) (projectNumber (desc p)) (isOrg (desc p)) v = (Inl m, v')
            \<and> r = Inl (FetchFailed m) \<and> this = p)
     \<or> (\<exists>res. graphql R (owner (desc p)) (projectNumber (desc p)) (isOrg (desc p)) v
                  = (Inr res, v')
            \<and> (if isOrg (desc p) then organization res else user res) = None
            \<and> r = Inl (BoardNotFound (isOrg (desc p))) \<and> this = p)
     \<or> (\<exists>res prjv2. graphql R (owner (desc p)) (projectNumber (desc p)) (isOrg (desc p)) v
                  = (Inr res, v')
            \<and> (if isOrg (desc p) then organization res else user res) = Some prjv2
            \<and> r = Inr (pv_id prjv2, pv_title prjv2)
            \<and> this = p\<lparr>projectID := Some (pv_id prjv2),
                         fieldsMap := initFields (fieldsMap p) (pv_nodes prjv2)\<rparr>)"
proof -
  obtain a v1 where g: "graphql R (owner (desc p)) (projectNumber (desc p)) (isOrg (desc p)) v
      = (a, v1)"
    by (cases "graphql R (owner (desc p)) (projectNumber (desc p)) (isOrg (desc p)) v")
  show ?thesis
  proof (cases a)
    case (Inl m)
    with assms g show ?thesis
      by (auto simp: init_def)
  next
    case (Inr res)
    show ?thesis
    proof (cases "if isOrg (desc p) then organization res else user res")
      case None
      with assms g Inr show ?thesis
        by (cases "isOrg (desc p)") (auto simp: init_def)
    next
      case (Some prjv2)
      with assms g Inr show ?thesis
        by (cases "isOrg (desc p)") (auto simp: init_def)
    qed
  qed
qed

lemma init_failure: "init R p v = (Inl e, this, v') \<Longrightarrow> this = p"
  using init_cases [of R p v "Inl e" this v'] by auto

lemma init_success: "init R p v = (Inr (i, t), this, v') \<Longrightarrow> projectID this = Some i"
  using init_cases [of R p v "Inr (i, t)" this v'] by auto

lemma lookup_stableD1:
  "lookup_stable R \<Longrightarrow> getProjectItem R y pid' w = (a, w1) \<Longrightarrow>
     fst (getProjectItem R x pid w1) = fst (getProjectItem R x pid w)"
  unfolding lookup_stable_def by (metis snd_conv)

lemma lookup_stableD2:
  "lookup_stable R \<Longrightarrow> updateIssueStatus R p i f v w = (a, w1) \<Longrightarrow>
     fst (getProjectItem R x pid w1) = fst (getProjectItem R x pid w)"
  unfolding lookup_stable_def by (metis snd_conv)

subsection \<open>The status resolver\<close>









lemma lowering_folds: "foldsCase (toLowerCase L)"
  using Rep_lowering [of L] by (simp add: toLowerCase_def [abs_def])

lemma toLowerCase_symbol:
  assumes "isAscii a" and "isAscii b" and "u = [] \<or> u \<in> set caselessSymbols"
  shows "toLowerCase L (a @ u @ b) = map lowerChar a @ u @ map lowerChar b"
  using lowering_folds [of L] assms unfolding foldsCase_def by blast

lemma toLowerCase_ascii: "isAscii s \<Longrightarrow> toLowerCase L s = map lowerChar s"
  using toLowerCase_symbol [of s "[]" "[]" L] by (simp add: isAscii_def)

lemma toLowerCase_Nil: "toLowerCase L [] = []"
  by (simp add: toLowerCase_ascii isAscii_def)

lemma asciiLowering_folds: "foldsCase (map lowerChar)"
proof -
  have "map lowerChar u = u" if "u = [] \<or> u \<in> set caselessSymbols" for u
    using that by (auto simp: caselessSymbols_def lowerChar_def upperLetters_def lowerLetters_def)
  then show ?thesis
    by (simp add: foldsCase_def)
qed

lemma toLowerCase_asciiLowering: "toLowerCase asciiLowering s = map lowerChar s"
  by (simp add: toLowerCase_def asciiLowering_def Abs_lowering_inverse asciiLowering_folds)




text \<open>
  On the option names of the scenarios and on an ASCII label every \<open>lowering\<close>
  is the ASCII folding, so \<open>getStatusField\<close> does there what it does with
  \<open>asciiLowering\<close>.
\<close>

lemma lowerChar_symbol: "u = [] \<or> u \<in> set caselessSymbols \<Longrightarrow> map lowerChar u = u"
  by (auto simp: caselessSymbols_def lowerChar_def upperLetters_def lowerLetters_def)

lemma toLowerCase_plain:
  assumes "isAscii a" and "isAscii b" and "u = [] \<or> u \<in> set caselessSymbols"
  shows "toLowerCase L (a @ u @ b) = map lowerChar (a @ u @ b)"
  using toLowerCase_symbol [OF assms] lowerChar_symbol [OF assms(3)] by simp

lemma toLowerCase_options:
  assumes "opt \<in> set doneOptions \<union> set backlogOptions"
  shows "toLowerCase L (o_name opt) = map lowerChar (o_name opt)"
proof -
  have a: "toLowerCase L s = map lowerChar s" if "isAscii s" for s
    using that by (rule toLowerCase_ascii)
  have "isAscii ''Todo''" "isAscii ''In Progress''" "isAscii ''Done''"
    by code_simp+
  note ascii = this [THEN a]
  have b: "isAscii []" "isAscii '' Done''" "isAscii '' Backlog''"
    by code_simp+
  have "toLowerCase L ([] @ [CHR 0xE2, CHR 0x9C, CHR 0x85] @ '' Done'')
      = map lowerChar ([] @ [CHR 0xE2, CHR 0x9C, CHR 0x85] @ '' Done'')"
    by (rule toLowerCase_plain) (simp_all add: b caselessSymbols_def)
  moreover have "toLowerCase L ([] @ [CHR 0xF0, CHR 0x9F, CHR 0x93, CHR 0x8B] @ '' Backlog'')
      = map lowerChar ([] @ [CHR 0xF0, CHR 0x9F, CHR 0x93, CHR 0x8B] @ '' Backlog'')"
    by (rule toLowerCase_plain) (simp_all add: b caselessSymbols_def)
  ultimately show ?thesis
    using assms ascii by (auto simp: doneOptions_def backlogOptions_def)
qed

lemma getStatusField_scenario:
  assumes "isAscii wanted" and "set opts \<subseteq> set doneOptions \<union> set backlogOptions"
  shows "getStatusField L (acmeProject [statusEntry opts] ds) wanted
           = getStatusField asciiLowering (acmeProject [statusEntry opts] ds) wanted"
proof -
  have "find (\<lambda>entry. includes_str (toLowerCase L (o_name entry)) (toLowerCase L wanted)) opts
      = find (\<lambda>entry. includes_str (toLowerCase asciiLowering (o_name entry))
                (toLowerCase asciiLowering wanted)) opts"
  proof (rule find_cong [OF refl])
    fix opt assume "opt \<in> set opts"
    with assms(2) have "opt \<in> set doneOptions \<union> set backlogOptions"
      by blast
    then show "includes_str (toLowerCase L (o_name opt)) (toLowerCase L wanted)
        = includes_str (toLowerCase asciiLowering (o_name opt)) (toLowerCase asciiLowering wanted)"
      by (simp add: toLowerCase_options toLowerCase_ascii [OF assms(1)])
  qed
  moreover have "f_options (statusEntry opts) = opts"
    by (simp add: statusEntry_def)
  ultimately show ?thesis
    unfolding getStatusField_def acme_status option.case by simp
qed

text \<open>\<open>includes_str\<close> decides whether its argument is a contiguous sublist.\<close>

lemma includes_str_sublist: "includes_str s t \<longleftrightarrow> sublist t s"
  by (induction s) (auto simp: sublist_Cons_right)

lemma includes_str_Nil: "includes_str s []"
  by (cases s) simp_all

lemma find_None_sublist:
  "find (\<lambda>entry. includes_str (toLowerCase L (o_name entry)) (toLowerCase L wanted)) opts = None
     \<longleftrightarrow> (\<forall>opt\<in>set opts. \<not> sublist (toLowerCase L wanted) (toLowerCase L (o_name opt)))"
  by (auto simp: find_None_iff includes_str_sublist)



lemma getStatusField_none:
  assumes "fieldsMap this ''Status'' = Some sf"
    and "\<forall>opt\<in>set (f_options sf). \<not> sublist (toLowerCase L wanted) (toLowerCase L (o_name opt))"
  shows "getStatusField L this wanted = Inr None"
proof -
  have "find (\<lambda>entry. includes_str (toLowerCase L (o_name entry)) (toLowerCase L wanted))
          (f_options sf) = None"
    using assms(2) by (simp only: find_None_sublist)
  then show ?thesis
    using assms(1) by (simp add: getStatusField_def)
qed

lemma setStatus_not_found:
  assumes "fieldsMap this ''Status'' = Some sf"
    and "wanted = (if b then prs (defaultStatus this) else issues (defaultStatus this))"
    and "\<forall>opt\<in>set (f_options sf). \<not> sublist (toLowerCase L wanted) (toLowerCase L (o_name opt))"
  shows "setStatus L R this pid item b cs w = (Inl (StatusValueNotFound wanted), this, cs, w)"
  using getStatusField_none [OF assms(1,3)] assms(2) by (simp add: setStatus_def)




text \<open>
  Claim C10. With the empty string as the wanted label and at least one option
  on the \<^verbatim>\<open>Status\<close> field, \<open>getStatusField\<close> returns the first option in the
  declared order.
\<close>

theorem getStatusField_empty_label:
  assumes "fieldsMap this ''Status'' = Some sf" and "f_options sf = opt # rest"
  shows "getStatusField L this [] =
           Inr (Some \<lparr>fieldID = f_id sf, value_id = o_id opt, value_name = o_name opt\<rparr>)"
  using assms by (simp add: getStatusField_def toLowerCase_Nil includes_str_Nil)

theorem getStatusField_empty_label_witness:
  "fieldsMap (acmeProject [statusEntry doneOptions] \<lparr>issues = [], prs = []\<rparr>) ''Status''
     = Some (statusEntry doneOptions)
   \<and> f_options (statusEntry doneOptions) = hd doneOptions # tl doneOptions
   \<and> getStatusField asciiLowering (acmeProject [statusEntry doneOptions] \<lparr>issues = [], prs = []\<rparr>) []
     = Inr (Some \<lparr>fieldID = Some ''PVTSSF_1'', value_id = ''o1'', value_name = ''Todo''\<rparr>)"
proof -
  have o: "f_options (statusEntry doneOptions) = hd doneOptions # tl doneOptions"
    by (simp add: statusEntry_def doneOptions_def)
  from getStatusField_empty_label [OF acme_status o]
  show ?thesis
    using o by (simp add: acme_status) (simp add: statusEntry_def doneOptions_def)
qed

subsection \<open>\<^verbatim>\<open>addToProject\<close> before and after \<^verbatim>\<open>init\<close>\<close>

text \<open>
  Claim C9. On an object that the constructor has returned, and on which
  \<^verbatim>\<open>init\<close> has not been run or has failed, \<open>addToProject\<close> fails with
  \<open>NotInitialized\<close> for every item and both kinds of item; it issues no call
  (no lookup, no add, no status update) and leaves the world as it is.
\<close>

theorem addToProject_before_init:
  assumes "Project_new tok url ds = Inr p0"
    and "this = p0 \<or> (\<exists>e v v'. init R p0 v = (Inl e, this, v'))"
  shows "addToProject L R this x b w = (Inl NotInitialized, this, [], w)"
proof -
  have p0: "projectID p0 = None"
    using assms(1) by (auto simp: Project_new_def split: sum.splits)
  have "projectID this = None"
    using assms(2) p0 by (auto dest: init_failure)
  then show ?thesis
    by (rule addToProject_uninit)
qed

theorem addToProject_before_init_witness:
  "Project_new ''ghp_token'' acmeURL \<lparr>issues = ''Todo'', prs = ''Todo''\<rparr>
     = Inr (acmeNew \<lparr>issues = ''Todo'', prs = ''Todo''\<rparr>)
   \<and> addToProject asciiLowering boardRemote (acmeNew \<lparr>issues = ''Todo'', prs = ''Todo''\<rparr>) ''I_1'' False
        (acmeBoard [statusEntry doneOptions] [])
     = (Inl NotInitialized, acmeNew \<lparr>issues = ''Todo'', prs = ''Todo''\<rparr>, [],
        acmeBoard [statusEntry doneOptions] [])
   \<and> init boardRemote (acmeNew \<lparr>issues = ''Todo'', prs = ''Todo''\<rparr>)
        ((acmeBoard [] [])\<lparr>schema := \<lparr>organization = None, user = None\<rparr>\<rparr>)
     = (Inl (BoardNotFound True), acmeNew \<lparr>issues = ''Todo'', prs = ''Todo''\<rparr>,
        (acmeBoard [] [])\<lparr>schema := \<lparr>organization = None, user = None\<rparr>\<rparr>)
   \<and> addToProject asciiLowering boardRemote (acmeNew \<lparr>issues = ''Todo'', prs = ''Todo''\<rparr>) ''PR_2'' True
        (acmeBoard [statusEntry doneOptions] [(''PR_2'', ''PVTI_PR_2'')])
     = (Inl NotInitialized, acmeNew \<lparr>issues = ''Todo'', prs = ''Todo''\<rparr>, [],
        acmeBoard [statusEntry doneOptions] [(''PR_2'', ''PVTI_PR_2'')])"
proof -
  let ?ds = "\<lparr>issues = ''Todo'', prs = ''Todo''\<rparr>"
  let ?B = "(acmeBoard [] [])\<lparr>schema := \<lparr>organization = None, user = None\<rparr>\<rparr>"
  have c: "Project_new ''ghp_token'' acmeURL ?ds = Inr (acmeNew ?ds)"
    by (rule acme_constructed)
  have i: "init boardRemote (acmeNew ?ds) ?B = (Inl (BoardNotFound True), acmeNew ?ds, ?B)"
    by (simp add: init_def boardRemote_simps acmeNew_def)
  have h1: "acmeNew ?ds = acmeNew ?ds
      \<or> (\<exists>e v v'. init boardRemote (acmeNew ?ds) v = (Inl e, acmeNew ?ds, v'))"
    by simp
  have h2: "acmeNew ?ds = acmeNew ?ds
      \<or> (\<exists>e v v'. init boardRemote (acmeNew ?ds) v = (Inl e, acmeNew ?ds, v'))"
    using i by blast
  from addToProject_before_init [OF c h1, where L = asciiLowering and x = "''I_1''" and b = False
      and w = "acmeBoard [statusEntry doneOptions] []"]
    addToProject_before_init [OF c h2, where L = asciiLowering and x = "''PR_2''" and b = True
      and w = "acmeBoard [statusEntry doneOptions] [(''PR_2'', ''PVTI_PR_2'')]"] c i
  show ?thesis
    by (intro conjI)
qed

text \<open>
  Claim C7. After a successful \<^verbatim>\<open>init\<close>, a call of \<open>addToProject\<close> that
  fails, with whatever error, leaves the object as it was: the project id is the
  one \<^verbatim>\<open>init\<close> returned, the field index is unchanged, and no later call on
  the object fails with \<open>NotInitialized\<close>.
\<close>

theorem addToProject_failure_keeps_state:
  assumes "init R p0 v = (Inr (i, t), this, v')"
    and "addToProject L R this x b w = (Inl e, this', cs, w')"
  shows "this' = this \<and> projectID this' = Some i \<and> fieldsMap this' = fieldsMap this
     \<and> (\<forall>y c u. fst (addToProject L R this' y c u) \<noteq> Inl NotInitialized)"
proof -
  have p: "projectID this = Some i"
    using assms(1) by (rule init_success)
  have t: "this' = this"
    using assms(2) by (rule addToProject_this)
  have "fst (addToProject L R this y c u) \<noteq> Inl NotInitialized" for y c u
    using addToProject_initialized [OF p, where L = L and R = R and x = y and b = c and w = u]
    by (cases "addToProject L R this y c u") auto
  with p t show ?thesis by simp
qed

theorem addToProject_failure_keeps_state_witness:
  "init boardRemote (acmeNew \<lparr>issues = ''done'', prs = ''missing''\<rparr>)
     (acmeBoard [statusEntry doneOptions] [(''I_1'', ''PVTI_I_1'')])
     = (Inr (''PVT_7'', ''Roadmap''),
        acmeProject [statusEntry doneOptions] \<lparr>issues = ''done'', prs = ''missing''\<rparr>,
        acmeBoard [statusEntry doneOptions] [(''I_1'', ''PVTI_I_1'')])
   \<and> addToProject asciiLowering boardRemote
        (acmeProject [statusEntry doneOptions] \<lparr>issues = ''done'', prs = ''missing''\<rparr>)
        ''I_1'' True (acmeBoard [statusEntry doneOptions] [(''I_1'', ''PVTI_I_1'')])
     = (Inl (StatusValueNotFound ''missing''),
        acmeProject [statusEntry doneOptions] \<lparr>issues = ''done'', prs = ''missing''\<rparr>,
        [Lookup ''I_1'' ''PVT_7''],
        acmeBoard [statusEntry doneOptions] [(''I_1'', ''PVTI_I_1'')])
   \<and> projectID (acmeProject [statusEntry doneOptions] \<lparr>issues = ''done'', prs = ''missing''\<rparr>)
     = Some ''PVT_7''
   \<and> fst (addToProject asciiLowering boardRemote
        (acmeProject [statusEntry doneOptions] \<lparr>issues = ''done'', prs = ''missing''\<rparr>)
        ''I_1'' False (acmeBoard [statusEntry doneOptions] [(''I_1'', ''PVTI_I_1'')]))
     \<noteq> Inl NotInitialized"
proof -
  let ?P = "acmeProject [statusEntry doneOptions] \<lparr>issues = ''done'', prs = ''missing''\<rparr>"
  let ?B = "acmeBoard [statusEntry doneOptions] [(''I_1'', ''PVTI_I_1'')]"
  have none: "\<forall>opt\<in>set (f_options (statusEntry doneOptions)).
      \<not> sublist (toLowerCase asciiLowering ''missing'') (toLowerCase asciiLowering (o_name opt))"
    unfolding toLowerCase_asciiLowering by code_simp
  have w: "''missing'' = (if True then prs (defaultStatus ?P) else issues (defaultStatus ?P))"
    by (simp add: acme_defaultStatus)
  have look: "getProjectItem boardRemote ''I_1'' ''PVT_7'' ?B
      = (Inr (Some \<lparr>prjItemID = ''PVTI_I_1''\<rparr>), ?B)"
    by (simp add: boardRemote_simps acme_members)
  have f: "addToProject asciiLowering boardRemote ?P ''I_1'' True ?B
      = (Inl (StatusValueNotFound ''missing''), ?P, [Lookup ''I_1'' ''PVT_7''], ?B)"
    unfolding addToProject_present [OF acme_projectID look]
    by (rule setStatus_not_found [OF acme_status w none])
  from addToProject_failure_keeps_state [OF acme_init f]
  have "projectID ?P = Some ''PVT_7''"
    and "fst (addToProject asciiLowering boardRemote ?P ''I_1'' False ?B) \<noteq> Inl NotInitialized"
    by blast+
  with acme_init f show ?thesis
    by (intro conjI)
qed

subsection \<open>The add path\<close>

text \<open>
  Claim C2. When the first lookup finds no membership, the add returns the
  board-item id \<open>a\<close> and the second lookup returns an item whose id is not
  \<open>a\<close>, \<open>addToProject\<close> fails with \<open>MembershipIDMismatch\<close>; the calls issued
  are the lookup, the add and the lookup, and no status update.
\<close>

theorem addToProject_id_mismatch:
  assumes "projectID this = Some pid"
    and "getProjectItem R x pid w = (Inr None, w1)"
    and "addProjectItem R x pid w1 = (Inr (Some a), w2)"
    and "getProjectItem R x pid w2 = (Inr (Some item), w3)"
    and "prjItemID item \<noteq> a"
  shows "\<exists>cs. addToProject L R this x b w = (Inl (MembershipIDMismatch (prjItemID item) a), this, cs, w3)
           \<and> cs = [Lookup x pid, Add x pid, Lookup x pid] \<and> \<not> list_ex isSetStatus cs"
  using assms by (simp add: addToProject_paths isSetStatus_def)

theorem addToProject_id_mismatch_witness:
  "projectID (acmeProject [statusEntry backlogOptions] \<lparr>issues = ''Backlog'', prs = ''Review''\<rparr>)
     = Some ''PVT_7''
   \<and> getProjectItem mismatchRemote ''I_1'' ''PVT_7'' (acmeBoard [statusEntry backlogOptions] [])
     = (Inr None, acmeBoard [statusEntry backlogOptions] [])
   \<and> addProjectItem mismatchRemote ''I_1'' ''PVT_7'' (acmeBoard [statusEntry backlogOptions] [])
     = (Inr (Some ''PVTI_other''),
        (acmeBoard [statusEntry backlogOptions] [])\<lparr>members := [(''I_1'', ''PVTI_I_1'')]\<rparr>)
   \<and> getProjectItem mismatchRemote ''I_1'' ''PVT_7''
        ((acmeBoard [statusEntry backlogOptions] [])\<lparr>members := [(''I_1'', ''PVTI_I_1'')]\<rparr>)
     = (Inr (Some \<lparr>prjItemID = ''PVTI_I_1''\<rparr>),
        (acmeBoard [statusEntry backlogOptions] [])\<lparr>members := [(''I_1'', ''PVTI_I_1'')]\<rparr>)
   \<and> prjItemID \<lparr>prjItemID = ''PVTI_I_1''\<rparr> \<noteq> ''PVTI_other''
   \<and> addToProject asciiLowering mismatchRemote
        (acmeProject [statusEntry backlogOptions] \<lparr>issues = ''Backlog'', prs = ''Review''\<rparr>)
        ''I_1'' False (acmeBoard [statusEntry backlogOptions] [])
     = (Inl (MembershipIDMismatch ''PVTI_I_1'' ''PVTI_other''),
        acmeProject [statusEntry backlogOptions] \<lparr>issues = ''Backlog'', prs = ''Review''\<rparr>,
        [Lookup ''I_1'' ''PVT_7'', Add ''I_1'' ''PVT_7'', Lookup ''I_1'' ''PVT_7''],
        (acmeBoard [statusEntry backlogOptions] [])\<lparr>members := [(''I_1'', ''PVTI_I_1'')]\<rparr>)"
proof -
  let ?P = "acmeProject [statusEntry backlogOptions] \<lparr>issues = ''Backlog'', prs = ''Review''\<rparr>"
  let ?B = "acmeBoard [statusEntry backlogOptions] []"
  let ?B' = "?B\<lparr>members := [(''I_1'', ''PVTI_I_1'')]\<rparr>"
  have l1: "getProjectItem mismatchRemote ''I_1'' ''PVT_7'' ?B = (Inr None, ?B)"
    by (simp add: mismatchRemote_simps acme_members)
  have ad: "addProjectItem mismatchRemote ''I_1'' ''PVT_7'' ?B = (Inr (Some ''PVTI_other''), ?B')"
    by (simp add: mismatchRemote_simps acme_members)
  have l2: "getProjectItem mismatchRemote ''I_1'' ''PVT_7'' ?B'
      = (Inr (Some \<lparr>prjItemID = ''PVTI_I_1''\<rparr>), ?B')"
    by (simp add: mismatchRemote_simps)
  have ne: "prjItemID \<lparr>prjItemID = ''PVTI_I_1''\<rparr> \<noteq> ''PVTI_other''"
    by simp
  from addToProject_id_mismatch [OF acme_projectID l1 ad l2 ne, where b = False]
  have "addToProject asciiLowering mismatchRemote ?P ''I_1'' False ?B
      = (Inl (MembershipIDMismatch ''PVTI_I_1'' ''PVTI_other''), ?P,
         [Lookup ''I_1'' ''PVT_7'', Add ''I_1'' ''PVT_7'', Lookup ''I_1'' ''PVT_7''], ?B')"
    by simp
  with acme_projectID l1 ad l2 ne show ?thesis
    by (intro conjI)
qed

text \<open>
  Claim C1, as the source has it. With no field named \<^verbatim>\<open>Status\<close> in the
  index, \<open>addToProject\<close> never succeeds and never issues a status update. When
  the item is already on the board it fails with \<open>MissingStatusField\<close> after the
  lookup alone, with no mutation. When the item is not on the board, the add
  mutation is issued first; after an add and a second lookup that agree on the
  id, the call fails with \<open>MissingStatusField\<close>.
\<close>

theorem addToProject_no_status_field:
  assumes nf: "fieldsMap this ''Status'' = None"
    and run: "addToProject L R this x b w = (r, this', cs, w')"
  shows "(\<exists>e. r = Inl e) \<and> \<not> list_ex isSetStatus cs
     \<and> (\<forall>pid item w1.
           projectID this = Some pid \<and> getProjectItem R x pid w = (Inr (Some item), w1)
           \<longrightarrow> r = Inl MissingStatusField \<and> cs = [Lookup x pid] \<and> \<not> list_ex isMutation cs
               \<and> w' = w1)
     \<and> (\<forall>pid item w1 w2 w3.
           projectID this = Some pid \<and> getProjectItem R x pid w = (Inr None, w1)
           \<and> addProjectItem R x pid w1 = (Inr (Some (prjItemID item)), w2)
           \<and> getProjectItem R x pid w2 = (Inr (Some item), w3)
           \<longrightarrow> r = Inl MissingStatusField \<and> cs = [Lookup x pid, Add x pid, Lookup x pid]
               \<and> w' = w3)"
proof (cases "projectID this")
  case None
  with run show ?thesis
    by (auto simp: addToProject_uninit)
next
  case (Some pid)
  have a: "(\<exists>e. r = Inl e) \<and> \<not> list_ex isSetStatus cs"
    using run Some
    by (auto simp: addToProject_paths setStatus_no_field [OF nf] isSetStatus_def
             split: prod.splits sum.splits option.splits if_splits)
  have b: "r = Inl MissingStatusField \<and> cs = [Lookup x pid] \<and> \<not> list_ex isMutation cs
        \<and> w' = w1"
    if "getProjectItem R x pid w = (Inr (Some item), w1)" for item w1
    using run Some that
    by (auto simp: addToProject_paths setStatus_no_field [OF nf] isMutation_def)
  have c: "r = Inl MissingStatusField \<and> cs = [Lookup x pid, Add x pid, Lookup x pid] \<and> w' = w3"
    if "getProjectItem R x pid w = (Inr None, w1)"
      "addProjectItem R x pid w1 = (Inr (Some (prjItemID item)), w2)"
      "getProjectItem R x pid w2 = (Inr (Some item), w3)" for item w1 w2 w3
    using run Some that
    by (auto simp: addToProject_paths setStatus_no_field [OF nf])
  from a b c Some show ?thesis
    by auto
qed

theorem addToProject_no_status_field_witness:
  "fieldsMap (acmeProject [] \<lparr>issues = ''Backlog'', prs = ''Review''\<rparr>) ''Status'' = None
   \<and> addToProject asciiLowering boardRemote (acmeProject [] \<lparr>issues = ''Backlog'', prs = ''Review''\<rparr>)
        ''I_1'' True (acmeBoard [] [(''I_1'', ''PVTI_I_1'')])
     = (Inl MissingStatusField,
        acmeProject [] \<lparr>issues = ''Backlog'', prs = ''Review''\<rparr>,
        [Lookup ''I_1'' ''PVT_7''],
        acmeBoard [] [(''I_1'', ''PVTI_I_1'')])
   \<and> \<not> list_ex isMutation [Lookup ''I_1'' ''PVT_7'']
   \<and> \<not> list_ex isSetStatus [Lookup ''I_1'' ''PVT_7'']
   \<and> addToProject asciiLowering boardRemote (acmeProject [] \<lparr>issues = ''Backlog'', prs = ''Review''\<rparr>)
        ''PR_2'' True (acmeBoard [] [(''I_1'', ''PVTI_I_1'')])
     = (Inl MissingStatusField,
        acmeProject [] \<lparr>issues = ''Backlog'', prs = ''Review''\<rparr>,
        [Lookup ''PR_2'' ''PVT_7'', Add ''PR_2'' ''PVT_7'', Lookup ''PR_2'' ''PVT_7''],
        (acmeBoard [] [(''I_1'', ''PVTI_I_1'')])
          \<lparr>members := [(''PR_2'', ''PVTI_PR_2''), (''I_1'', ''PVTI_I_1'')]\<rparr>)
   \<and> \<not> list_ex isSetStatus
         [Lookup ''PR_2'' ''PVT_7'', Add ''PR_2'' ''PVT_7'', Lookup ''PR_2'' ''PVT_7'']"
proof -
  let ?P = "acmeProject [] \<lparr>issues = ''Backlog'', prs = ''Review''\<rparr>"
  let ?B = "acmeBoard [] [(''I_1'', ''PVTI_I_1'')]"
  let ?B' = "?B\<lparr>members := [(''PR_2'', ''PVTI_PR_2''), (''I_1'', ''PVTI_I_1'')]\<rparr>"
  obtain r this' cs w' where run: "addToProject asciiLowering boardRemote ?P ''I_1'' True ?B = (r, this', cs, w')"
    by (cases "addToProject asciiLowering boardRemote ?P ''I_1'' True ?B")
  have look: "getProjectItem boardRemote ''I_1'' ''PVT_7'' ?B
      = (Inr (Some \<lparr>prjItemID = ''PVTI_I_1''\<rparr>), ?B)"
    by (simp add: boardRemote_simps acme_members)
  from addToProject_no_status_field [OF acme_no_status run] acme_projectID look
  have "r = Inl MissingStatusField \<and> cs = [Lookup ''I_1'' ''PVT_7''] \<and> \<not> list_ex isMutation cs
      \<and> w' = ?B" and "\<not> list_ex isSetStatus cs"
    by blast+
  moreover have "this' = ?P"
    using run by (rule addToProject_this)
  ultimately have a: "addToProject asciiLowering boardRemote ?P ''I_1'' True ?B
      = (Inl MissingStatusField, ?P, [Lookup ''I_1'' ''PVT_7''], ?B)"
    and b: "\<not> list_ex isMutation [Lookup ''I_1'' ''PVT_7'']"
      "\<not> list_ex isSetStatus [Lookup ''I_1'' ''PVT_7'']"
    using run by (simp_all add: isMutation_def)
  obtain r2 this2 cs2 w2 where
    run2: "addToProject asciiLowering boardRemote ?P ''PR_2'' True ?B = (r2, this2, cs2, w2)"
    by (cases "addToProject asciiLowering boardRemote ?P ''PR_2'' True ?B")
  have l1: "getProjectItem boardRemote ''PR_2'' ''PVT_7'' ?B = (Inr None, ?B)"
    by (simp add: boardRemote_simps acme_members)
  have ad: "addProjectItem boardRemote ''PR_2'' ''PVT_7'' ?B
      = (Inr (Some (prjItemID \<lparr>prjItemID = ''PVTI_PR_2''\<rparr>)), ?B')"
    by (simp add: boardRemote_simps acme_members)
  have l2: "getProjectItem boardRemote ''PR_2'' ''PVT_7'' ?B'
      = (Inr (Some \<lparr>prjItemID = ''PVTI_PR_2''\<rparr>), ?B')"
    by (simp add: boardRemote_simps)
  from addToProject_no_status_field [OF acme_no_status run2] acme_projectID l1 ad l2
  have "r2 = Inl MissingStatusField
      \<and> cs2 = [Lookup ''PR_2'' ''PVT_7'', Add ''PR_2'' ''PVT_7'', Lookup ''PR_2'' ''PVT_7'']
      \<and> w2 = ?B'" and "\<not> list_ex isSetStatus cs2"
    by blast+
  moreover have "this2 = ?P"
    using run2 by (rule addToProject_this)
  ultimately have c: "addToProject asciiLowering boardRemote ?P ''PR_2'' True ?B
      = (Inl MissingStatusField, ?P,
         [Lookup ''PR_2'' ''PVT_7'', Add ''PR_2'' ''PVT_7'', Lookup ''PR_2'' ''PVT_7''], ?B')"
    and d: "\<not> list_ex isSetStatus
         [Lookup ''PR_2'' ''PVT_7'', Add ''PR_2'' ''PVT_7'', Lookup ''PR_2'' ''PVT_7'']"
    using run2 by simp_all
  from acme_no_status [of "\<lparr>issues = ''Backlog'', prs = ''Review''\<rparr>"] a b c d show ?thesis
    by (intro conjI)
qed

text \<open>
  Claim C1 as stated, that the failure comes before any mutation also for an
  item that is not yet on the board, does not hold: on an empty board without a
  \<^verbatim>\<open>Status\<close> field the add mutation is among the calls issued, and the board
  has the new membership when the call fails.
\<close>

theorem missing_status_after_add:
  "fieldsMap (acmeProject [] \<lparr>issues = ''Backlog'', prs = ''Review''\<rparr>) ''Status'' = None
   \<and> addToProject asciiLowering boardRemote (acmeProject [] \<lparr>issues = ''Backlog'', prs = ''Review''\<rparr>)
        ''I_1'' False (acmeBoard [] [])
     = (Inl MissingStatusField,
        acmeProject [] \<lparr>issues = ''Backlog'', prs = ''Review''\<rparr>,
        [Lookup ''I_1'' ''PVT_7'', Add ''I_1'' ''PVT_7'', Lookup ''I_1'' ''PVT_7''],
        (acmeBoard [] [])\<lparr>members := [(''I_1'', ''PVTI_I_1'')]\<rparr>)
   \<and> list_ex isMutation [Lookup ''I_1'' ''PVT_7'', Add ''I_1'' ''PVT_7'', Lookup ''I_1'' ''PVT_7'']"
  by (simp add: acme_no_status addToProject_paths [OF acme_projectID] boardRemote_simps
        acme_members setStatus_no_field isMutation_def)

subsection \<open>Calling \<^verbatim>\<open>addToProject\<close> twice\<close>

lemma find_backlog:
  "find (\<lambda>entry. includes_str (toLowerCase asciiLowering (o_name entry))
            (toLowerCase asciiLowering ''Backlog''))
     (f_options (statusEntry backlogOptions))
   = Some \<lparr>o_id = ''o1'', o_name = [CHR 0xF0, CHR 0x9F, CHR 0x93, CHR 0x8B] @ '' Backlog''\<rparr>"
  unfolding toLowerCase_asciiLowering by code_simp

lemma acme_backlog:
  "getStatusField L (acmeProject [statusEntry backlogOptions] \<lparr>issues = ''Backlog'', prs = ''Review''\<rparr>)
     ''Backlog''
   = Inr (Some \<lparr>fieldID = Some ''PVTSSF_1'', value_id = ''o1'',
                value_name = [CHR 0xF0, CHR 0x9F, CHR 0x93, CHR 0x8B] @ '' Backlog''\<rparr>)"
proof -
  have "isAscii ''Backlog''"
    by code_simp
  then have "getStatusField L
      (acmeProject [statusEntry backlogOptions] \<lparr>issues = ''Backlog'', prs = ''Review''\<rparr>) ''Backlog''
    = getStatusField asciiLowering
      (acmeProject [statusEntry backlogOptions] \<lparr>issues = ''Backlog'', prs = ''Review''\<rparr>) ''Backlog''"
    by (rule getStatusField_scenario) simp
  also have "\<dots> = Inr (Some \<lparr>fieldID = Some ''PVTSSF_1'', value_id = ''o1'',
                value_name = [CHR 0xF0, CHR 0x9F, CHR 0x93, CHR 0x8B] @ '' Backlog''\<rparr>)"
    unfolding getStatusField_def acme_status option.case find_backlog
    by (simp add: statusEntry_def)
  finally show ?thesis .
qed

lemma acme_first_call:
  "addToProject L boardRemote
     (acmeProject [statusEntry backlogOptions] \<lparr>issues = ''Backlog'', prs = ''Review''\<rparr>)
     ''I_1'' False (acmeBoard [statusEntry backlogOptions] [])
   = (Inr ''PVTI_I_1'',
      acmeProject [statusEntry backlogOptions] \<lparr>issues = ''Backlog'', prs = ''Review''\<rparr>,
      [Lookup ''I_1'' ''PVT_7'', Add ''I_1'' ''PVT_7'', Lookup ''I_1'' ''PVT_7'',
       SetStatus ''PVT_7'' ''PVTI_I_1'' (Some ''PVTSSF_1'') ''o1''],
      (acmeBoard [statusEntry backlogOptions] [])
        \<lparr>members := [(''I_1'', ''PVTI_I_1'')],
         assignments := [(''PVTI_I_1'', Some ''PVTSSF_1'', ''o1'')]\<rparr>)"
  by (simp add: addToProject_paths [OF acme_projectID] boardRemote_simps acme_members
        setStatus_def acme_defaultStatus acme_backlog)
     (simp add: acmeBoard_def)

lemma acme_member_call:
  "addToProject L boardRemote
     (acmeProject [statusEntry backlogOptions] \<lparr>issues = ''Backlog'', prs = ''Review''\<rparr>)
     ''I_1'' False
     ((acmeBoard [statusEntry backlogOptions] [])
        \<lparr>members := [(''I_1'', ''PVTI_I_1'')], assignments := as\<rparr>)
   = (Inr ''PVTI_I_1'',
      acmeProject [statusEntry backlogOptions] \<lparr>issues = ''Backlog'', prs = ''Review''\<rparr>,
      [Lookup ''I_1'' ''PVT_7'', SetStatus ''PVT_7'' ''PVTI_I_1'' (Some ''PVTSSF_1'') ''o1''],
      (acmeBoard [statusEntry backlogOptions] [])
        \<lparr>members := [(''I_1'', ''PVTI_I_1'')],
         assignments := (''PVTI_I_1'', Some ''PVTSSF_1'', ''o1'') # as\<rparr>)"
  by (simp add: addToProject_paths [OF acme_projectID] boardRemote_simps
        setStatus_def acme_defaultStatus acme_backlog)

text \<open>
  Claim C3, as the source has it. Let the remote answer lookups stably and let a
  first call of \<open>addToProject\<close> for an item succeed with the board-item id
  \<open>a\<close>. Then a second call for the same item issues a lookup and a status
  update for \<open>a\<close> and no add, and returns \<open>a\<close> unless its status update fails.
  Over the two calls one add is issued when the item was not on the board before
  the first call, and none when it was.
\<close>

theorem addToProject_twice:
  assumes st: "lookup_stable R"
    and first: "addToProject L R this x b w = (Inr a, this1, cs1, w1)"
    and second: "addToProject L R this1 x b w1 = (r2, this2, cs2, w2)"
  shows "\<exists>pid f v. projectID this = Some pid
     \<and> cs2 = [Lookup x pid, SetStatus pid a f v]
     \<and> \<not> list_ex isAdd cs2
     \<and> (r2 = Inr a \<or> (\<exists>e. r2 = Inl (StatusUpdateFailed e)))
     \<and> length (filter isAdd (cs1 @ cs2))
         = (if fst (getProjectItem R x pid w) = Inr None then 1 else 0)"
  using first
proof (cases rule: addToProject_success_cases)
  case (present pid item wa)
  from setStatus_success [OF present(3)] obtain ns u where
    a: "a = prjItemID item" and t: "this1 = this"
    and ns: "getStatusField L this (if b then prs (defaultStatus this) else issues (defaultStatus this))
               = Inr (Some ns)"
    and cs1: "cs1 = [Lookup x pid] @ [SetStatus pid a (fieldID ns) (value_id ns)]"
    and up: "updateIssueStatus R pid a (fieldID ns) (value_id ns) wa = (Inr u, w1)"
    by blast
  have "fst (getProjectItem R x pid w1) = fst (getProjectItem R x pid wa)"
    using lookup_stableD2 [OF st up] .
  also have "\<dots> = fst (getProjectItem R x pid w)"
    using lookup_stableD1 [OF st present(2)] .
  finally have look: "fst (getProjectItem R x pid w1) = Inr (Some item)"
    using present(2) by simp
  from addToProject_member [OF present(1) look ns] second t a
  have c2: "cs2 = [Lookup x pid, SetStatus pid a (fieldID ns) (value_id ns)]"
    and r2: "r2 = Inr a \<or> (\<exists>e. r2 = Inl (StatusUpdateFailed e))"
    by simp_all
  have n: "length (filter isAdd (cs1 @ cs2)) = 0" "\<not> list_ex isAdd cs2"
    using cs1 c2 by (simp_all add: isAdd_def)
  have "fst (getProjectItem R x pid w) \<noteq> Inr None"
    using present(2) by simp
  with present(1) c2 r2 n show ?thesis
    by simp
next
  case (added pid item wa wb wc)
  from setStatus_success [OF added(5)] obtain ns u where
    a: "a = prjItemID item" and t: "this1 = this"
    and ns: "getStatusField L this (if b then prs (defaultStatus this) else issues (defaultStatus this))
               = Inr (Some ns)"
    and cs1: "cs1 = [Lookup x pid, Add x pid, Lookup x pid]
                      @ [SetStatus pid a (fieldID ns) (value_id ns)]"
    and up: "updateIssueStatus R pid a (fieldID ns) (value_id ns) wc = (Inr u, w1)"
    by blast
  have "fst (getProjectItem R x pid w1) = fst (getProjectItem R x pid wc)"
    using lookup_stableD2 [OF st up] .
  also have "\<dots> = fst (getProjectItem R x pid wb)"
    using lookup_stableD1 [OF st added(4)] .
  finally have look: "fst (getProjectItem R x pid w1) = Inr (Some item)"
    using added(4) by simp
  from addToProject_member [OF added(1) look ns] second t a
  have c2: "cs2 = [Lookup x pid, SetStatus pid a (fieldID ns) (value_id ns)]"
    and r2: "r2 = Inr a \<or> (\<exists>e. r2 = Inl (StatusUpdateFailed e))"
    by simp_all
  have n: "length (filter isAdd (cs1 @ cs2)) = 1" "\<not> list_ex isAdd cs2"
    using cs1 c2 by (simp_all add: isAdd_def)
  have "fst (getProjectItem R x pid w) = Inr None"
    using added(2) by simp
  with added(1) c2 r2 n show ?thesis
    by simp
qed

text \<open>
  The end-to-end scenario of the specification: the item is not on the board,
  the label is \<^verbatim>\<open>Backlog\<close>. The first call adds the item and sets the option
  \<^verbatim>\<open>o1\<close>, the second call only sets it again.
\<close>

theorem addToProject_twice_witness:
  "lookup_stable boardRemote
   \<and> addToProject asciiLowering boardRemote
        (acmeProject [statusEntry backlogOptions] \<lparr>issues = ''Backlog'', prs = ''Review''\<rparr>)
        ''I_1'' False (acmeBoard [statusEntry backlogOptions] [])
     = (Inr ''PVTI_I_1'',
        acmeProject [statusEntry backlogOptions] \<lparr>issues = ''Backlog'', prs = ''Review''\<rparr>,
        [Lookup ''I_1'' ''PVT_7'', Add ''I_1'' ''PVT_7'', Lookup ''I_1'' ''PVT_7'',
         SetStatus ''PVT_7'' ''PVTI_I_1'' (Some ''PVTSSF_1'') ''o1''],
        (acmeBoard [statusEntry backlogOptions] [])
          \<lparr>members := [(''I_1'', ''PVTI_I_1'')],
           assignments := [(''PVTI_I_1'', Some ''PVTSSF_1'', ''o1'')]\<rparr>)
   \<and> addToProject asciiLowering boardRemote
        (acmeProject [statusEntry backlogOptions] \<lparr>issues = ''Backlog'', prs = ''Review''\<rparr>)
        ''I_1'' False
        ((acmeBoard [statusEntry backlogOptions] [])
          \<lparr>members := [(''I_1'', ''PVTI_I_1'')],
           assignments := [(''PVTI_I_1'', Some ''PVTSSF_1'', ''o1'')]\<rparr>)
     = (Inr ''PVTI_I_1'',
        acmeProject [statusEntry backlogOptions] \<lparr>issues = ''Backlog'', prs = ''Review''\<rparr>,
        [Lookup ''I_1'' ''PVT_7'', SetStatus ''PVT_7'' ''PVTI_I_1'' (Some ''PVTSSF_1'') ''o1''],
        (acmeBoard [statusEntry backlogOptions] [])
          \<lparr>members := [(''I_1'', ''PVTI_I_1'')],
           assignments := [(''PVTI_I_1'', Some ''PVTSSF_1'', ''o1''),
                           (''PVTI_I_1'', Some ''PVTSSF_1'', ''o1'')]\<rparr>)
   \<and> length (filter isAdd
        ([Lookup ''I_1'' ''PVT_7'', Add ''I_1'' ''PVT_7'', Lookup ''I_1'' ''PVT_7'',
          SetStatus ''PVT_7'' ''PVTI_I_1'' (Some ''PVTSSF_1'') ''o1'']
         @ [Lookup ''I_1'' ''PVT_7'',
            SetStatus ''PVT_7'' ''PVTI_I_1'' (Some ''PVTSSF_1'') ''o1''])) = 1"
proof -
  note first = acme_first_call [of asciiLowering]
  note second = acme_member_call [of asciiLowering "[(''PVTI_I_1'', Some ''PVTSSF_1'', ''o1'')]"]
  have absent: "fst (getProjectItem boardRemote ''I_1'' ''PVT_7''
      (acmeBoard [statusEntry backlogOptions] [])) = Inr None"
    by (simp add: boardRemote_simps acme_members)
  from addToProject_twice [OF boardRemote_stable first second] acme_projectID absent
  have "length (filter isAdd
        ([Lookup ''I_1'' ''PVT_7'', Add ''I_1'' ''PVT_7'', Lookup ''I_1'' ''PVT_7'',
          SetStatus ''PVT_7'' ''PVTI_I_1'' (Some ''PVTSSF_1'') ''o1'']
         @ [Lookup ''I_1'' ''PVT_7'',
            SetStatus ''PVT_7'' ''PVTI_I_1'' (Some ''PVTSSF_1'') ''o1''])) = 1"
    by (auto simp: isAdd_def)
  with boardRemote_stable first second show ?thesis
    by (intro conjI)
qed

text \<open>
  Claim C3 as stated, that exactly one add is issued over the two calls, does
  not hold for an item that is on the board before the first call: both calls
  return the same id and neither issues an add.
\<close>

theorem already_member_no_add:
  "addToProject asciiLowering boardRemote
     (acmeProject [statusEntry backlogOptions] \<lparr>issues = ''Backlog'', prs = ''Review''\<rparr>)
     ''I_1'' False
     ((acmeBoard [statusEntry backlogOptions] [])
        \<lparr>members := [(''I_1'', ''PVTI_I_1'')], assignments := []\<rparr>)
   = (Inr ''PVTI_I_1'',
      acmeProject [statusEntry backlogOptions] \<lparr>issues = ''Backlog'', prs = ''Review''\<rparr>,
      [Lookup ''I_1'' ''PVT_7'', SetStatus ''PVT_7'' ''PVTI_I_1'' (Some ''PVTSSF_1'') ''o1''],
      (acmeBoard [statusEntry backlogOptions] [])
        \<lparr>members := [(''I_1'', ''PVTI_I_1'')],
         assignments := [(''PVTI_I_1'', Some ''PVTSSF_1'', ''o1'')]\<rparr>)
   \<and> addToProject asciiLowering boardRemote
       (acmeProject [statusEntry backlogOptions] \<lparr>issues = ''Backlog'', prs = ''Review''\<rparr>)
       ''I_1'' False
       ((acmeBoard [statusEntry backlogOptions] [])
          \<lparr>members := [(''I_1'', ''PVTI_I_1'')],
           assignments := [(''PVTI_I_1'', Some ''PVTSSF_1'', ''o1'')]\<rparr>)
   = (Inr ''PVTI_I_1'',
      acmeProject [statusEntry backlogOptions] \<lparr>issues = ''Backlog'', prs = ''Review''\<rparr>,
      [Lookup ''I_1'' ''PVT_7'', SetStatus ''PVT_7'' ''PVTI_I_1'' (Some ''PVTSSF_1'') ''o1''],
      (acmeBoard [statusEntry backlogOptions] [])
        \<lparr>members := [(''I_1'', ''PVTI_I_1'')],
         assignments := [(''PVTI_I_1'', Some ''PVTSSF_1'', ''o1''),
                         (''PVTI_I_1'', Some ''PVTSSF_1'', ''o1'')]\<rparr>)
   \<and> length (filter isAdd
        ([Lookup ''I_1'' ''PVT_7'', SetStatus ''PVT_7'' ''PVTI_I_1'' (Some ''PVTSSF_1'') ''o1'']
         @ [Lookup ''I_1'' ''PVT_7'',
            SetStatus ''PVT_7'' ''PVTI_I_1'' (Some ''PVTSSF_1'') ''o1''])) = 0"
  using acme_member_call [of asciiLowering "[]"]
    acme_member_call [of asciiLowering "[(''PVTI_I_1'', Some ''PVTSSF_1'', ''o1'')]"]
  by (simp add: isAdd_def)

subsection \<open>Where the board URL is resolved\<close>

lemma Project_new_cases:
  "Project_new tok url dflt =
     (if tok = [] then Inl MissingToken
      else case parseURL url of
             Inl e \<Rightarrow> Inl e
           | Inr d \<Rightarrow>
               Inr \<lparr>token = tok, desc = d, projectID = None, fieldsMap = Map.empty,
                    defaultStatus = dflt\<rparr>)"
  by (simp add: Project_new_def getOctokit_def)

text \<open>
  Claim C8, as the source has it. The constructor resolves the board URL, after
  it has made the client: with an empty token making the client fails; with
  another token, when the pattern occurs nowhere in the URL, construction fails
  with \<open>InvalidURL\<close>; in both cases there is no object. When construction
  succeeds the URL matches, and \<^verbatim>\<open>init\<close> on the object never fails with
  \<open>InvalidURL\<close>: a failing \<^verbatim>\<open>init\<close> leaves the object as it was and fails
  either with \<open>BoardNotFound\<close>, exactly when the fetch has answered without the
  member that \<^verbatim>\<open>isOrg\<close> selects, or with \<open>FetchFailed m\<close>, exactly when \<open>m\<close> is
  what the fetch has thrown.
\<close>

theorem init_failures:
  "(tok = [] \<longrightarrow> Project_new tok url dflt = Inl MissingToken)
   \<and> (tok \<noteq> [] \<and> \<not> (\<exists>pre s ty ow ds. url = pre @ s \<and> pattern_at s ty ow ds)
      \<longrightarrow> Project_new tok url dflt = Inl (InvalidURL url))
   \<and> (\<forall>this. Project_new tok url dflt = Inr this \<longrightarrow>
         tok \<noteq> []
       \<and> (\<exists>pre s ty ow ds. url = pre @ s \<and> pattern_at s ty ow ds)
       \<and> (\<forall>e this' v'. init R this v = (Inl e, this', v') \<longrightarrow>
             this' = this
           \<and> (\<forall>u. e \<noteq> InvalidURL u)
           \<and> (e = BoardNotFound (isOrg (desc this)) \<or> (\<exists>m. e = FetchFailed m))
           \<and> (e = BoardNotFound (isOrg (desc this)) \<longleftrightarrow>
                (\<exists>res. graphql R (owner (desc this)) (projectNumber (desc this))
                          (isOrg (desc this)) v = (Inr res, v')
                   \<and> (if isOrg (desc this) then organization res else user res) = None))
           \<and> (\<forall>m. e = FetchFailed m \<longleftrightarrow>
                graphql R (owner (desc this)) (projectNumber (desc this))
                  (isOrg (desc this)) v = (Inl m, v'))))"
proof (intro conjI impI allI)
  assume "tok = []"
  then show "Project_new tok url dflt = Inl MissingToken"
    by (simp add: Project_new_cases)
next
  assume "tok \<noteq> [] \<and> \<not> (\<exists>pre s ty ow ds. url = pre @ s \<and> pattern_at s ty ow ds)"
  then show "Project_new tok url dflt = Inl (InvalidURL url)"
    by (simp add: Project_new_cases parseURL_no_match)
next
  fix this
  assume n: "Project_new tok url dflt = Inr this"
  then show "tok \<noteq> []"
    by (auto simp: Project_new_cases)
  show "\<exists>pre s ty ow ds. url = pre @ s \<and> pattern_at s ty ow ds"
  proof (rule ccontr)
    assume "\<not> (\<exists>pre s ty ow ds. url = pre @ s \<and> pattern_at s ty ow ds)"
    then have "parseURL url = Inl (InvalidURL url)"
      by (rule parseURL_no_match)
    with n show False
      by (simp add: Project_new_cases split: if_splits)
  qed
  fix e this' v'
  assume i: "init R this v = (Inl e, this', v')"
  from init_cases [OF i]
  show "this' = this" by auto
  from init_cases [OF i]
  show "e \<noteq> InvalidURL u" for u by auto
  from init_cases [OF i]
  show "e = BoardNotFound (isOrg (desc this)) \<or> (\<exists>m. e = FetchFailed m)" by auto
  from init_cases [OF i]
  show "e = BoardNotFound (isOrg (desc this)) \<longleftrightarrow>
      (\<exists>res. graphql R (owner (desc this)) (projectNumber (desc this))
                (isOrg (desc this)) v = (Inr res, v')
         \<and> (if isOrg (desc this) then organization res else user res) = None)"
    by (cases "isOrg (desc this)") auto
  from init_cases [OF i]
  show "e = FetchFailed m \<longleftrightarrow>
      graphql R (owner (desc this)) (projectNumber (desc this)) (isOrg (desc this)) v
        = (Inl m, v')" for m
    by auto
qed

theorem init_failures_witness:
  "Project_new [] acmeURL \<lparr>issues = ''Todo'', prs = ''Todo''\<rparr> = Inl MissingToken
   \<and> \<not> (\<exists>pre s ty ow ds. ''https://github.com/acme/projects/7'' = pre @ s \<and> pattern_at s ty ow ds)
   \<and> Project_new ''ghp_token'' ''https://github.com/acme/projects/7''
        \<lparr>issues = ''Todo'', prs = ''Todo''\<rparr>
     = Inl (InvalidURL ''https://github.com/acme/projects/7'')
   \<and> Project_new ''ghp_token'' acmeURL \<lparr>issues = ''Todo'', prs = ''Todo''\<rparr>
     = Inr (acmeNew \<lparr>issues = ''Todo'', prs = ''Todo''\<rparr>)
   \<and> init boardRemote (acmeNew \<lparr>issues = ''Todo'', prs = ''Todo''\<rparr>)
        ((acmeBoard [] [])\<lparr>schema := \<lparr>organization = None, user = None\<rparr>\<rparr>)
     = (Inl (BoardNotFound True), acmeNew \<lparr>issues = ''Todo'', prs = ''Todo''\<rparr>,
        (acmeBoard [] [])\<lparr>schema := \<lparr>organization = None, user = None\<rparr>\<rparr>)
   \<and> BoardNotFound True \<noteq> InvalidURL acmeURL
   \<and> init (boardRemote\<lparr>graphql := (\<lambda>ownr number org b. (Inl ''HttpError'', b))\<rparr>)
        (acmeNew \<lparr>issues = ''Todo'', prs = ''Todo''\<rparr>) (acmeBoard [] [])
     = (Inl (FetchFailed ''HttpError''), acmeNew \<lparr>issues = ''Todo'', prs = ''Todo''\<rparr>,
        acmeBoard [] [])
   \<and> graphql (boardRemote\<lparr>graphql := (\<lambda>ownr number org b. (Inl ''HttpError'', b))\<rparr>)
        (owner (desc (acmeNew \<lparr>issues = ''Todo'', prs = ''Todo''\<rparr>)))
        (projectNumber (desc (acmeNew \<lparr>issues = ''Todo'', prs = ''Todo''\<rparr>)))
        (isOrg (desc (acmeNew \<lparr>issues = ''Todo'', prs = ''Todo''\<rparr>))) (acmeBoard [] [])
     = (Inl ''HttpError'', acmeBoard [] [])"
proof -
  let ?ds = "\<lparr>issues = ''Todo'', prs = ''Todo''\<rparr>"
  let ?B = "(acmeBoard [] [])\<lparr>schema := \<lparr>organization = None, user = None\<rparr>\<rparr>"
  let ?F = "boardRemote\<lparr>graphql := (\<lambda>ownr number org b. (Inl ''HttpError'', b))\<rparr>"
  let ?bad = "''https://github.com/acme/projects/7''"
  note t0 = init_failures [where tok = "[]" and url = acmeURL and dflt = ?ds
      and R = boardRemote and v = ?B]
  note t1 = init_failures [where tok = "''ghp_token''" and url = ?bad and dflt = ?ds
      and R = boardRemote and v = ?B]
  note t2 = init_failures [where tok = "''ghp_token''" and url = acmeURL and dflt = ?ds
      and R = boardRemote and v = ?B]
  note t3 = init_failures [where tok = "''ghp_token''" and url = acmeURL and dflt = ?ds
      and R = ?F and v = "acmeBoard [] []"]
  from t0 have z: "Project_new [] acmeURL ?ds = Inl MissingToken"
    by blast
  have "''ghp_token'' \<noteq> []"
    by simp
  with t1 bad_url_no_match
  have a: "Project_new ''ghp_token'' ?bad ?ds = Inl (InvalidURL ?bad)"
    by blast
  have i: "init boardRemote (acmeNew ?ds) ?B = (Inl (BoardNotFound True), acmeNew ?ds, ?B)"
    by (simp add: init_def boardRemote_simps acmeNew_def)
  from t2 acme_constructed [of ?ds] i
  have b: "BoardNotFound True \<noteq> InvalidURL acmeURL"
    by blast
  have f: "init ?F (acmeNew ?ds) (acmeBoard [] [])
      = (Inl (FetchFailed ''HttpError''), acmeNew ?ds, acmeBoard [] [])"
    by (simp add: init_def)
  from t3 acme_constructed [of ?ds] f
  have g: "graphql ?F (owner (desc (acmeNew ?ds))) (projectNumber (desc (acmeNew ?ds)))
      (isOrg (desc (acmeNew ?ds))) (acmeBoard [] []) = (Inl ''HttpError'', acmeBoard [] [])"
    by blast
  from z bad_url_no_match a acme_constructed [of ?ds] i b f g show ?thesis
    by (intro conjI)
qed

text \<open>
  Claim C8 as stated, that \<^verbatim>\<open>init\<close> is what fails with \<open>InvalidURL\<close> for a
  board URL that does not match, does not hold: for such a URL the constructor
  has already failed.
\<close>

theorem constructor_rejects_url:
  "Project_new ''ghp_token'' ''https://github.com/acme/projects/7'' \<lparr>issues = ''Todo'', prs = ''Todo''\<rparr>
     = Inl (InvalidURL ''https://github.com/acme/projects/7'')"
  by (simp add: Project_new_cases parseURL_no_match [OF bad_url_no_match])

end
